theory Spec2Isabelle
  imports Main "HOL-Library.Sublist"
begin

section \<open>Values of the host platform\<close>

text \<open>
  The module runs in a browser. Three kinds of host values occur in it: errors that a
  built-in throws, URL objects, and the values that \<^verbatim>\<open>JSON.parse\<close> returns.
\<close>

datatype error = TypeError | SyntaxError | URIError

text \<open>
  A \<^verbatim>\<open>URL\<close> object: what stands before the path (\<open>origin\<close>), the path, the query
  and the fragment. \<open>searchParams\<close> is the \<^verbatim>\<open>URLSearchParams\<close> list of decoded
  name/value pairs, in order, duplicates allowed. The string that \<^verbatim>\<open>url.toString()\<close>
  returns is represented by the record it serialises: the host serialiser is a function of
  these four components once the query has been written back from the pair list, which
  every change of the list does, and \<^verbatim>\<open>appendQueryParams\<close> does once more.
\<close>

record url =
  origin :: string
  pathname :: string
  searchParams :: "(string \<times> string) list"
  hash :: string

text \<open>\<^verbatim>\<open>URLSearchParams.prototype.set\<close>: the first pair named \<open>k\<close> takes the value,
  the other pairs named \<open>k\<close> are removed; without such a pair, one is appended.\<close>

fun sp_set :: "string \<Rightarrow> string \<Rightarrow> (string \<times> string) list \<Rightarrow> (string \<times> string) list" where
  "sp_set k v [] = [(k, v)]"
| "sp_set k v (p # ps) =
     (if fst p = k then (k, v) # filter (\<lambda>q. fst q \<noteq> k) ps else p # sp_set k v ps)"

text \<open>\<^verbatim>\<open>URLSearchParams.prototype.delete\<close>, \<^verbatim>\<open>get\<close>, \<^verbatim>\<open>getAll\<close> and \<^verbatim>\<open>has\<close>.\<close>

definition sp_delete :: "string \<Rightarrow> (string \<times> string) list \<Rightarrow> (string \<times> string) list" where
  "sp_delete k ps = filter (\<lambda>q. fst q \<noteq> k) ps"

definition sp_get :: "string \<Rightarrow> (string \<times> string) list \<Rightarrow> string option" where
  "sp_get k ps = map_of ps k"

definition sp_getAll :: "string \<Rightarrow> (string \<times> string) list \<Rightarrow> string list" where
  "sp_getAll k ps = map snd (filter (\<lambda>q. fst q = k) ps)"

definition sp_has :: "string \<Rightarrow> (string \<times> string) list \<Rightarrow> bool" where
  "sp_has k ps = (k \<in> fst ` set ps)"

section \<open>URL query codec\<close>

definition allowedParams :: "string list" where
  "allowedParams = [''rotate'', ''crop'', ''flip'', ''size'', ''preferwebp'', ''height'',
     ''width'', ''quality'', ''smartcrop'']"

text \<open>The body of \<^verbatim>\<open>params.forEach((value, key) => ...)\<close>, over the pairs of
  \<open>params\<close> in their order.\<close>

fun forEach_param :: "(string \<times> string) list \<Rightarrow> (string \<times> string) list \<Rightarrow> (string \<times> string) list" where
  "forEach_param [] sp = sp"
| "forEach_param ((key, val) # params) sp =
     forEach_param params (if key \<in> set allowedParams then sp_set key val sp else sp)"

text \<open>\<^verbatim>\<open>appendQueryParams(url, params)\<close> mutates \<open>url\<close> and returns its serialisation;
  the result stands for both.\<close>

definition appendQueryParams :: "url \<Rightarrow> (string \<times> string) list \<Rightarrow> url" where
  "appendQueryParams u params = u\<lparr>searchParams := forEach_param params (searchParams u)\<rparr>"

text \<open>The value a key has after the \<^verbatim>\<open>forEach\<close> of \<open>params\<close>: the one of its last pair.
  \<open>written params k\<close> says that the loop calls \<^verbatim>\<open>set\<close> for \<open>k\<close>.\<close>

definition last_value :: "(string \<times> string) list \<Rightarrow> string \<Rightarrow> string" where
  "last_value params k = the (map_of (rev params) k)"

definition written :: "(string \<times> string) list \<Rightarrow> string \<Rightarrow> bool" where
  "written params k = (k \<in> set allowedParams \<and> k \<in> fst ` set params)"

section \<open>Host built-ins the module calls\<close>

text \<open>
  Values of JavaScript that reach the module from \<^verbatim>\<open>JSON.parse\<close> and from omitted or
  \<^verbatim>\<open>null\<close> arguments. A number carries the string \<^verbatim>\<open>String(n)\<close> gives for it.
\<close>

datatype jsval =
  Undefined | JNull | JBool bool | JNumber string | JString string
  | JArray "jsval list" | JObject "(string \<times> jsval) list"

text \<open>Truthiness (\<^verbatim>\<open>!v\<close>, \<^verbatim>\<open>v || d\<close>) and \<^verbatim>\<open>String(v)\<close>, which
  \<^verbatim>\<open>setAttribute\<close>, \<^verbatim>\<open>new URL\<close> and \<^verbatim>\<open>RegExp.test\<close> apply to their argument.\<close>

fun truthy :: "jsval \<Rightarrow> bool" where
  "truthy Undefined = False"
| "truthy JNull = False"
| "truthy (JBool b) = b"
| "truthy (JNumber n) = (n \<noteq> ''0'' \<and> n \<noteq> ''NaN'')"
| "truthy (JString s) = (s \<noteq> [])"
| "truthy (JArray xs) = True"
| "truthy (JObject fs) = True"

fun join_comma :: "string list \<Rightarrow> string" where
  "join_comma [] = []"
| "join_comma [x] = x"
| "join_comma (x # y # ys) = x @ '','' @ join_comma (y # ys)"

fun toStr :: "jsval \<Rightarrow> string" where
  "toStr Undefined = ''undefined''"
| "toStr JNull = ''null''"
| "toStr (JBool b) = (if b then ''true'' else ''false'')"
| "toStr (JNumber n) = n"
| "toStr (JString s) = s"
| "toStr (JArray xs) =
     join_comma (map (\<lambda>x. if x = Undefined \<or> x = JNull then [] else toStr x) xs)"
| "toStr (JObject fs) = ''[object Object]''"

text \<open>Reading a property: \<^verbatim>\<open>const { deliveryUrl } = v\<close> throws on \<^verbatim>\<open>null\<close> and
  \<^verbatim>\<open>undefined\<close>, gives the field of an object (its last definition wins in
  \<^verbatim>\<open>JSON.parse\<close>, so the list holds each name once, and the first is read), and
  \<^verbatim>\<open>undefined\<close> on any other value a payload can hold.\<close>

fun getField :: "jsval \<Rightarrow> string \<Rightarrow> error + jsval" where
  "getField Undefined name = Inl TypeError"
| "getField JNull name = Inl TypeError"
| "getField (JObject fs) name = Inr (case map_of fs name of None \<Rightarrow> Undefined | Some v \<Rightarrow> v)"
| "getField v name = Inr Undefined"

text \<open>
  The parsers of the host are parameters of the model: \<open>url_parser\<close> is
  \<^verbatim>\<open>new URL(s)\<close> (\<open>None\<close> when it throws), \<open>url_resolver s base\<close> is
  \<^verbatim>\<open>new URL(s, base)\<close>, \<open>uri_decoder\<close> is \<^verbatim>\<open>decodeURIComponent\<close> on a string
  with escapes, \<open>json_parser\<close> is \<^verbatim>\<open>JSON.parse\<close> on a text that starts like a JSON
  value, and \<open>location_href\<close> is \<^verbatim>\<open>window.location.href\<close>.
\<close>

record platform =
  url_parser :: "string \<Rightarrow> url option"
  url_resolver :: "string \<Rightarrow> string \<Rightarrow> url option"
  uri_decoder :: "string \<Rightarrow> string option"
  json_parser :: "string \<Rightarrow> jsval option"
  location_href :: string

text \<open>
  Without a base, \<^verbatim>\<open>new URL(s)\<close> throws on every string that has no scheme: the URL
  parser drops leading controls and spaces and every tab and newline, and then wants an
  ASCII letter, followed by letters, digits, \<^verbatim>\<open>+\<close>, \<^verbatim>\<open>-\<close> or \<^verbatim>\<open>.\<close>, up to a colon.
  A path such as \<^verbatim>\<open>/media/img.jpg\<close> has none.
\<close>

definition ascii_alpha :: "char \<Rightarrow> bool" where
  "ascii_alpha c =
     ((of_char c \<ge> (65::nat) \<and> of_char c \<le> (90::nat)) \<or> (of_char c \<ge> (97::nat) \<and> of_char c \<le> (122::nat)))"

definition scheme_char :: "char \<Rightarrow> bool" where
  "scheme_char c =
     (ascii_alpha c \<or> (of_char c \<ge> (48::nat) \<and> of_char c \<le> (57::nat)) \<or> c \<in> set ''+-.'')"

definition has_scheme :: "string \<Rightarrow> bool" where
  "has_scheme s =
     (case filter (\<lambda>c. c \<notin> set [CHR 0x09, CHR 0x0A, CHR 0x0D])
             (dropWhile (\<lambda>c. of_char c \<le> (32::nat)) s) of
        [] \<Rightarrow> False
      | c # cs \<Rightarrow>
          ascii_alpha c \<and>
          (case dropWhile scheme_char cs of [] \<Rightarrow> False | d # ds \<Rightarrow> d = CHR '':''))"

definition new_URL :: "platform \<Rightarrow> string \<Rightarrow> error + url" where
  "new_URL pf s =
     (if \<not> has_scheme s then Inl TypeError
      else case url_parser pf s of None \<Rightarrow> Inl TypeError | Some u \<Rightarrow> Inr u)"

definition new_URL_base :: "platform \<Rightarrow> string \<Rightarrow> string \<Rightarrow> error + url" where
  "new_URL_base pf s base =
     (case url_resolver pf s base of None \<Rightarrow> Inl TypeError | Some u \<Rightarrow> Inr u)"

text \<open>\<^verbatim>\<open>decodeURIComponent\<close> returns a string without \<^verbatim>\<open>%\<close> as it is.\<close>

definition decodeURIComponent :: "platform \<Rightarrow> string \<Rightarrow> error + string" where
  "decodeURIComponent pf s =
     (if CHR ''%'' \<notin> set s then Inr s
      else case uri_decoder pf s of None \<Rightarrow> Inl URIError | Some t \<Rightarrow> Inr t)"

text \<open>\<^verbatim>\<open>JSON.parse\<close> rejects a text whose first character after the JSON white space
  (space, tab, line feed, carriage return) cannot begin a JSON value.\<close>

definition json_ws :: "char \<Rightarrow> bool" where
  "json_ws c = (c \<in> set [CHR '' '', CHR 0x09, CHR 0x0A, CHR 0x0D])"

definition json_value_start :: "char \<Rightarrow> bool" where
  "json_value_start c = (c \<in> set ''{[\"-0123456789tfn'')"

definition JSON_parse :: "platform \<Rightarrow> string \<Rightarrow> error + jsval" where
  "JSON_parse pf s =
     (case dropWhile json_ws s of
        [] \<Rightarrow> Inl SyntaxError
      | c # _ \<Rightarrow>
          if \<not> json_value_start c then Inl SyntaxError
          else (case json_parser pf s of None \<Rightarrow> Inl SyntaxError | Some v \<Rightarrow> Inr v))"

section \<open>String helpers of the classifier\<close>

text \<open>
  A string of the page is kept as the bytes of its UTF-8 encoding, so a character beyond
  ASCII is a sequence of two or three \<open>char\<close>s.

  \<^verbatim>\<open>String.prototype.trim\<close> removes white space and line terminators from both ends:
  the six of ASCII, the no-break space U+00A0, U+1680, U+2000 to U+200A, the line and
  paragraph separators U+2028 and U+2029, U+202F, U+205F, U+3000 and the byte order mark
  U+FEFF. \<open>white_space\<close> lists their encodings.
\<close>

definition white_space :: "string list" where
  "white_space =
     [[CHR 0x09], [CHR 0x0A], [CHR 0x0B], [CHR 0x0C], [CHR 0x0D], [CHR 0x20],
      [CHR 0xC2, CHR 0xA0],
      [CHR 0xE1, CHR 0x9A, CHR 0x80],
      [CHR 0xE2, CHR 0x80, CHR 0x80], [CHR 0xE2, CHR 0x80, CHR 0x81], [CHR 0xE2, CHR 0x80, CHR 0x82],
      [CHR 0xE2, CHR 0x80, CHR 0x83], [CHR 0xE2, CHR 0x80, CHR 0x84], [CHR 0xE2, CHR 0x80, CHR 0x85],
      [CHR 0xE2, CHR 0x80, CHR 0x86], [CHR 0xE2, CHR 0x80, CHR 0x87], [CHR 0xE2, CHR 0x80, CHR 0x88],
      [CHR 0xE2, CHR 0x80, CHR 0x89], [CHR 0xE2, CHR 0x80, CHR 0x8A],
      [CHR 0xE2, CHR 0x80, CHR 0xA8], [CHR 0xE2, CHR 0x80, CHR 0xA9], [CHR 0xE2, CHR 0x80, CHR 0xAF],
      [CHR 0xE2, CHR 0x81, CHR 0x9F],
      [CHR 0xE3, CHR 0x80, CHR 0x80],
      [CHR 0xEF, CHR 0xBB, CHR 0xBF]]"

text \<open>The length of the sequence of \<open>ws\<close> a string starts with, \<open>0\<close> when it starts with
  none; and the string without the sequences of \<open>ws\<close> it starts with.\<close>

definition space_at :: "string list \<Rightarrow> string \<Rightarrow> nat" where
  "space_at ws s = (case find (\<lambda>w. prefix w s) ws of None \<Rightarrow> 0 | Some w \<Rightarrow> length w)"

function strip_leading :: "string list \<Rightarrow> string \<Rightarrow> string" where
  "strip_leading ws s =
     (if space_at ws s = 0 \<or> s = [] then s else strip_leading ws (drop (space_at ws s) s))"
  by pat_completeness auto
termination
  by (relation "measure (\<lambda>(ws, s). length s)") auto

text \<open>At the end of the string the same, on the reversed string with the reversed
  encodings.\<close>

definition trim :: "string \<Rightarrow> string" where
  "trim s = rev (strip_leading (map rev white_space) (rev (strip_leading white_space s)))"

text \<open>\<^verbatim>\<open>toLowerCase\<close> on the ASCII letters. A character beyond ASCII lower-cases to
  characters beyond ASCII, but for the Kelvin sign, which gives \<^verbatim>\<open>k\<close>, and the dotted
  capital I, which gives \<^verbatim>\<open>i\<close> and a combining dot; so whether the result is one of the
  extensions below, none of which has a \<^verbatim>\<open>k\<close>, or starts with \<^verbatim>\<open>http\<close>, is decided
  by the ASCII letters.\<close>

definition lower_char :: "char \<Rightarrow> char" where
  "lower_char c =
     (if of_char c \<ge> (65::nat) \<and> of_char c \<le> (90::nat) then char_of (of_char c + (32::nat)) else c)"

definition toLowerCase :: "string \<Rightarrow> string" where
  "toLowerCase s = map lower_char s"

text \<open>\<^verbatim>\<open>s.split('.').pop()\<close> and \<^verbatim>\<open>s.substring(s.lastIndexOf('.') + 1)\<close>: the text
  after the last dot, the whole string when it has none.\<close>

definition after_last_dot :: "string \<Rightarrow> string" where
  "after_last_dot s = rev (takeWhile (\<lambda>c. c \<noteq> CHR ''.'') (rev s))"

definition getUrlExtension :: "string \<Rightarrow> string" where
  "getUrlExtension u =
     trim (after_last_dot (takeWhile (\<lambda>c. c \<noteq> CHR ''#'' \<and> c \<noteq> CHR ''?'') u))"

text \<open>\<open>None\<close> is \<^verbatim>\<open>null\<close>, what \<^verbatim>\<open>getAttribute\<close> returns for a missing attribute.\<close>

definition hasImageExtension :: "string option \<Rightarrow> bool" where
  "hasImageExtension url =
     (case url of
        None \<Rightarrow> False
      | Some u \<Rightarrow>
          if u = [] then False
          else (let ext = getUrlExtension u
                in ext \<noteq> [] \<and> toLowerCase ext \<in> set [''jpg'', ''jpeg'', ''png'', ''gif'', ''webp'', ''avif'']))"

text \<open>\<^verbatim>\<open>/^https?:\/\//i.test(src)\<close>.\<close>

definition isAbsoluteUrl :: "string \<Rightarrow> bool" where
  "isAbsoluteUrl s = (prefix ''http://'' (toLowerCase s) \<or> prefix ''https://'' (toLowerCase s))"

text \<open>\<^verbatim>\<open>/^(https?:\/\/(.*)\/adobe\/assets\/urn:aaid:aem:(.*))/gm.test(src)\<close>: with the
  \<^verbatim>\<open>m\<close> flag the pattern may start at any line, and \<^verbatim>\<open>.\<close> stays within the line.
  Lines end at a line feed, a carriage return, U+2028 or U+2029.\<close>

fun contains :: "string \<Rightarrow> string \<Rightarrow> bool" where
  "contains pat [] = (pat = [])"
| "contains pat (c # cs) = (prefix pat (c # cs) \<or> contains pat cs)"

fun split_lines :: "string \<Rightarrow> string \<Rightarrow> string list" where
  "split_lines cur (a # b # c # cs) =
     (if a = CHR 0xE2 \<and> b = CHR 0x80 \<and> (c = CHR 0xA8 \<or> c = CHR 0xA9)
      then rev cur # split_lines [] cs
      else if a = CHR 0x0A \<or> a = CHR 0x0D then rev cur # split_lines [] (b # c # cs)
      else split_lines (a # cur) (b # c # cs))"
| "split_lines cur (a # cs) =
     (if a = CHR 0x0A \<or> a = CHR 0x0D then rev cur # split_lines [] cs
      else split_lines (a # cur) cs)"
| "split_lines cur [] = [rev cur]"

definition dm_line :: "string \<Rightarrow> bool" where
  "dm_line l =
     ((prefix ''http://'' l \<and> contains ''/adobe/assets/urn:aaid:aem:'' (drop 7 l)) \<or>
      (prefix ''https://'' l \<and> contains ''/adobe/assets/urn:aaid:aem:'' (drop 8 l)))"

definition isDMOpenAPIUrl :: "string \<Rightarrow> bool" where
  "isDMOpenAPIUrl src = list_ex dm_line (split_lines [] src)"

section \<open>Picture synthesis\<close>

text \<open>
  A breakpoint object, with the fields the synthesisers read; \<open>None\<close> is a field that
  is not there. The page configuration \<^verbatim>\<open>window.hlx\<close>, with the crop table as the list
  \<^verbatim>\<open>Object.entries\<close> gives (\<open>None\<close> when \<^verbatim>\<open>smartCrops\<close> is undefined); the type
  parameter is what a configured prefix is paired with.
\<close>

record breakpoint =
  media :: "string option"
  width :: "string option"
  smartcrop :: "string option"

record crop_range =
  minWidth :: jsval
  maxWidth :: jsval

datatype 'h prefix_item = Tuple2 string 'h | Other string

record 'h hlx =
  codeBasePath :: string
  aem_codeBasePath :: "string option"
  aem_blocks :: "string list"
  externalImageUrlPrefixes :: "'h prefix_item list"
  smartCrops :: "(string \<times> crop_range) list option"

text \<open>
  The elements a synthesiser appends to its \<^verbatim>\<open>picture\<close>. The attributes that hold a
  URL hold the URL object whose serialisation was written there.
\<close>

datatype element =
  Source (source_media: "string option") (source_type: "string option") (srcset: url)
  | Img (loading: string) (alt: string) (src: url)

record picture =
  children :: "element list"
  classList :: "string list"
  smartcrop_status :: "string option"

definition str_truthy :: "string option \<Rightarrow> bool" where
  "str_truthy s = (case s of None \<Rightarrow> False | Some t \<Rightarrow> t \<noteq> [])"

text \<open>\<^verbatim>\<open>new URLSearchParams({ width: br.width })\<close> writes an absent field as
  \<^verbatim>\<open>undefined\<close>.\<close>

definition str_of :: "string option \<Rightarrow> string" where
  "str_of s = (case s of None \<Rightarrow> ''undefined'' | Some t \<Rightarrow> t)"

text \<open>\<^verbatim>\<open>if (br.media) source.setAttribute('media', br.media)\<close>.\<close>

definition media_attr :: "breakpoint \<Rightarrow> string option" where
  "media_attr br = (if str_truthy (media br) then media br else None)"

definition loading_attr :: "bool \<Rightarrow> string" where
  "loading_attr eager = (if eager then ''eager'' else ''lazy'')"

definition default_breakpoints :: "breakpoint list" where
  "default_breakpoints =
     [\<lparr>media = Some ''(min-width: 600px)'', width = Some ''2000'', smartcrop = None\<rparr>,
      \<lparr>media = None, width = Some ''750'', smartcrop = None\<rparr>]"

definition breakpoints_or_default :: "breakpoint list option \<Rightarrow> breakpoint list" where
  "breakpoints_or_default breakpoints =
     (case breakpoints of None \<Rightarrow> default_breakpoints | Some b \<Rightarrow> b)"

definition default_alt :: "jsval \<Rightarrow> jsval" where
  "default_alt a = (if a = Undefined then JString [] else a)"

subsection \<open>\<^verbatim>\<open>createOptimizedPicture\<close>, positional arguments (scripts/aem-assets.js)\<close>

text \<open>The two \<^verbatim>\<open>breakpoints.forEach\<close> loops. Their state is the children appended so
  far and the one URL object that every call of \<^verbatim>\<open>appendQueryParams\<close> mutates.\<close>

fun webp_loop :: "breakpoint list \<Rightarrow> element list \<times> url \<Rightarrow> element list \<times> url" where
  "webp_loop [] st = st"
| "webp_loop (br # brs) (kids, u) =
     (let u' = appendQueryParams u [(''width'', str_of (width br)), (''format'', ''webply'')]
      in webp_loop brs (kids @ [Source (media_attr br) (Some ''image/webp'') u'], u'))"

fun fallback_loop ::
  "string \<Rightarrow> string \<Rightarrow> bool \<Rightarrow> nat \<Rightarrow> nat \<Rightarrow> breakpoint list \<Rightarrow> element list \<times> url \<Rightarrow> element list \<times> url" where
  "fallback_loop ext a eager n i [] st = st"
| "fallback_loop ext a eager n i (br # brs) (kids, u) =
     (let u' = appendQueryParams u [(''width'', str_of (width br)), (''format'', ext)]
      in if int i < int n - 1
         then fallback_loop ext a eager n (Suc i) brs (kids @ [Source (media_attr br) None u'], u')
         else fallback_loop ext a eager n (Suc i) brs (kids @ [Img (loading_attr eager) a u'], u'))"

definition createOptimizedPicture ::
  "platform \<Rightarrow> string \<Rightarrow> jsval \<Rightarrow> bool \<Rightarrow> breakpoint list option \<Rightarrow> error + picture" where
  "createOptimizedPicture pf source a eager breakpoints =
     (let bps = breakpoints_or_default breakpoints
      in case new_URL pf source of
           Inl e \<Rightarrow> Inl e
         | Inr u \<Rightarrow>
             (let ext = after_last_dot (pathname u);
                  st1 = webp_loop bps ([], u);
                  st2 = fallback_loop ext (toStr (default_alt a)) eager (length bps) 0 bps st1
              in Inr \<lparr>children = fst st2, classList = [], smartcrop_status = None\<rparr>))"

subsection \<open>\<^verbatim>\<open>createOptimizedPicture\<close>, options record (the second copy of the module)\<close>

fun format_loop :: "string \<Rightarrow> breakpoint list \<Rightarrow> element list \<times> url \<Rightarrow> element list \<times> url" where
  "format_loop fmt [] st = st"
| "format_loop fmt (br # brs) (kids, u) =
     (let u' = appendQueryParams u [(''width'', str_of (width br)), (''format'', fmt)]
      in format_loop fmt brs (kids @ [Source (media_attr br) (Some (''image/'' @ fmt)) u'], u'))"

definition default_format :: "string option \<Rightarrow> string" where
  "default_format f = (case f of None \<Rightarrow> ''webp'' | Some t \<Rightarrow> t)"

definition createOptimizedPicture_opts ::
  "platform \<Rightarrow> string \<Rightarrow> jsval \<Rightarrow> bool \<Rightarrow> breakpoint list option \<Rightarrow> string option \<Rightarrow> error + picture" where
  "createOptimizedPicture_opts pf source a eager breakpoints imageFormat =
     (let bps = breakpoints_or_default breakpoints
      in case new_URL pf source of
           Inl e \<Rightarrow> Inl e
         | Inr u \<Rightarrow>
             (let ext = after_last_dot (pathname u);
                  st1 = format_loop (default_format imageFormat) bps ([], u);
                  st2 = fallback_loop ext (toStr (default_alt a)) eager (length bps) 0 bps st1
              in Inr \<lparr>children = fst st2, classList = [], smartcrop_status = None\<rparr>))"

subsection \<open>\<^verbatim>\<open>createOptimizedPictureWithSmartcrop\<close>\<close>

text \<open>The breakpoints derived from the crop table, one per entry of
  \<^verbatim>\<open>Object.entries(window.hlx.aemassets?.smartCrops)\<close>; \<^verbatim>\<open>Object.entries\<close> throws on
  \<^verbatim>\<open>undefined\<close>.\<close>

definition crop_media :: "crop_range \<Rightarrow> string" where
  "crop_media r =
     ''(min-width: '' @ toStr (minWidth r) @ ''px) and (max-width: '' @ toStr (maxWidth r) @ ''px)''"

definition smartcrop_breakpoints :: "'h hlx \<Rightarrow> breakpoint list \<Rightarrow> error + breakpoint list" where
  "smartcrop_breakpoints cfg breakpoints =
     (if length breakpoints \<noteq> 0 then Inr breakpoints
      else case smartCrops cfg of
             None \<Rightarrow> Inl TypeError
           | Some entries \<Rightarrow>
               Inr (map (\<lambda>(name, r). \<lparr>media = Some (crop_media r), width = None, smartcrop = Some name\<rparr>)
                      entries))"

text \<open>\<^verbatim>\<open>isAbsoluteUrl ? new URL(src) : new URL(src, window.location.href)\<close>.\<close>

definition resolve_URL :: "platform \<Rightarrow> string \<Rightarrow> error + url" where
  "resolve_URL pf source =
     (if isAbsoluteUrl source then new_URL pf source else new_URL_base pf source (location_href pf))"

fun crop_loop ::
  "string option \<Rightarrow> string \<Rightarrow> breakpoint list \<Rightarrow> element list \<times> url \<Rightarrow> element list \<times> url" where
  "crop_loop ty fmt [] st = st"
| "crop_loop ty fmt (br # brs) (kids, u) =
     (let u' = appendQueryParams u [(''smartcrop'', str_of (smartcrop br)), (''format'', fmt)]
      in crop_loop ty fmt brs (kids @ [Source (media_attr br) ty u'], u'))"

text \<open>The body both copies of the module share once the format of the first loop is
  fixed: \<^verbatim>\<open>'image/webp'\<close> with \<^verbatim>\<open>'webply'\<close> in the positional copy,
  \<^verbatim>\<open>`image/${imageFormat}`\<close> with \<^verbatim>\<open>imageFormat\<close> in the other.\<close>

definition smartcrop_picture ::
  "platform \<Rightarrow> 'h hlx \<Rightarrow> string \<Rightarrow> string \<Rightarrow> string \<Rightarrow> jsval \<Rightarrow> bool \<Rightarrow> breakpoint list \<Rightarrow> error + picture" where
  "smartcrop_picture pf cfg ty fmt source a eager breakpoints =
     (case smartcrop_breakpoints cfg breakpoints of
        Inl e \<Rightarrow> Inl e
      | Inr bps \<Rightarrow>
          (case resolve_URL pf source of
             Inl e \<Rightarrow> Inl e
           | Inr u \<Rightarrow>
               (let ext = after_last_dot (pathname u);
                    st1 = crop_loop (Some ty) fmt bps ([], u);
                    st2 = crop_loop None ext bps st1;
                    u' = (snd st2)\<lparr>searchParams := sp_delete ''smartcrop'' (searchParams (snd st2))\<rparr>
                in Inr \<lparr>children = fst st2 @ [Img (loading_attr eager) (toStr (default_alt a)) u'],
                        classList = [''smartcrop''], smartcrop_status = None\<rparr>)))"

definition createOptimizedPictureWithSmartcrop ::
  "platform \<Rightarrow> 'h hlx \<Rightarrow> string \<Rightarrow> jsval \<Rightarrow> bool \<Rightarrow> breakpoint list \<Rightarrow> error + picture" where
  "createOptimizedPictureWithSmartcrop pf cfg source a eager breakpoints =
     smartcrop_picture pf cfg ''image/webp'' ''webply'' source a eager breakpoints"

definition createOptimizedPictureWithSmartcrop_opts ::
  "platform \<Rightarrow> 'h hlx \<Rightarrow> string \<Rightarrow> jsval \<Rightarrow> bool \<Rightarrow> breakpoint list \<Rightarrow> string option \<Rightarrow> error + picture" where
  "createOptimizedPictureWithSmartcrop_opts pf cfg source a eager breakpoints imageFormat =
     smartcrop_picture pf cfg (''image/'' @ default_format imageFormat) (default_format imageFormat)
       source a eager breakpoints"

subsection \<open>\<^verbatim>\<open>createOptimizedPictureForDM\<close> and \<^verbatim>\<open>createOptimizedPictureForDMOpenAPI\<close>\<close>

fun dm_loop :: "breakpoint list \<Rightarrow> element list \<times> url \<Rightarrow> element list \<times> url" where
  "dm_loop [] st = st"
| "dm_loop (br # brs) (kids, u) =
     (let u' = appendQueryParams u [(''width'', str_of (width br))]
      in dm_loop brs (kids @ [Source (media_attr br) (Some ''image/jpeg'') u'], u'))"

fun dm_fallback_loop ::
  "string \<Rightarrow> bool \<Rightarrow> nat \<Rightarrow> nat \<Rightarrow> breakpoint list \<Rightarrow> element list \<times> url \<Rightarrow> element list \<times> url" where
  "dm_fallback_loop a eager n i [] st = st"
| "dm_fallback_loop a eager n i (br # brs) (kids, u) =
     (let u' = appendQueryParams u [(''width'', str_of (width br))]
      in if int i < int n - 1
         then dm_fallback_loop a eager n (Suc i) brs (kids @ [Source (media_attr br) None u'], u')
         else dm_fallback_loop a eager n (Suc i) brs (kids @ [Img (loading_attr eager) a u'], u'))"

definition createOptimizedPictureForDM ::
  "platform \<Rightarrow> string \<Rightarrow> jsval \<Rightarrow> bool \<Rightarrow> breakpoint list option \<Rightarrow> error + picture" where
  "createOptimizedPictureForDM pf source a eager breakpoints =
     (let bps = breakpoints_or_default breakpoints
      in case new_URL pf source of
           Inl e \<Rightarrow> Inl e
         | Inr u \<Rightarrow>
             (let st1 = dm_loop bps ([], u);
                  st2 = dm_fallback_loop (toStr (default_alt a)) eager (length bps) 0 bps st1
              in Inr \<lparr>children = fst st2, classList = [], smartcrop_status = None\<rparr>))"

text \<open>\<^verbatim>\<open>br.width || '2000'\<close>, and the parameters of one source of the OpenAPI picture:
  the width, then \<^verbatim>\<open>smartcrop\<close> when \<^verbatim>\<open>useSmartcrop && br.smartcrop\<close>.\<close>

definition width_or_2000 :: "breakpoint \<Rightarrow> string" where
  "width_or_2000 br = (if str_truthy (width br) then the (width br) else ''2000'')"

definition openapi_params :: "bool \<Rightarrow> breakpoint \<Rightarrow> (string \<times> string) list" where
  "openapi_params useSmartcrop br =
     (if useSmartcrop \<and> str_truthy (smartcrop br)
      then sp_set ''smartcrop'' (the (smartcrop br)) [(''width'', width_or_2000 br)]
      else [(''width'', width_or_2000 br)])"

definition openapi_breakpoints :: "'h hlx \<Rightarrow> bool \<Rightarrow> breakpoint list \<Rightarrow> breakpoint list" where
  "openapi_breakpoints cfg useSmartcrop breakpoints =
     (case smartCrops cfg of
        Some entries \<Rightarrow>
          if useSmartcrop \<and> length breakpoints = 0
          then map (\<lambda>(name, r). \<lparr>media = Some (crop_media r),
                      width = Some (if truthy (maxWidth r) then toStr (maxWidth r) else ''2000''),
                      smartcrop = Some name\<rparr>) entries
          else breakpoints
      | None \<Rightarrow> breakpoints)"

fun openapi_loop :: "bool \<Rightarrow> breakpoint list \<Rightarrow> element list \<times> url \<Rightarrow> element list \<times> url" where
  "openapi_loop useSmartcrop [] st = st"
| "openapi_loop useSmartcrop (br # brs) (kids, u) =
     (let u' = appendQueryParams u (openapi_params useSmartcrop br)
      in openapi_loop useSmartcrop brs (kids @ [Source (media_attr br) (Some ''image/avif'') u'], u'))"

fun openapi_fallback_loop ::
  "bool \<Rightarrow> nat \<Rightarrow> nat \<Rightarrow> breakpoint list \<Rightarrow> element list \<times> url \<Rightarrow> element list \<times> url" where
  "openapi_fallback_loop useSmartcrop n i [] st = st"
| "openapi_fallback_loop useSmartcrop n i (br # brs) (kids, u) =
     (if int i < int n - 1
      then (let u' = appendQueryParams u (openapi_params useSmartcrop br)
            in openapi_fallback_loop useSmartcrop n (Suc i) brs
                 (kids @ [Source (media_attr br) None u'], u'))
      else openapi_fallback_loop useSmartcrop n (Suc i) brs (kids, u))"

definition createOptimizedPictureForDMOpenAPI ::
  "platform \<Rightarrow> 'h hlx \<Rightarrow> string \<Rightarrow> jsval \<Rightarrow> bool \<Rightarrow> bool \<Rightarrow> breakpoint list option \<Rightarrow> error + picture" where
  "createOptimizedPictureForDMOpenAPI pf cfg source a useSmartcrop eager breakpoints =
     (case resolve_URL pf source of
        Inl e \<Rightarrow> Inl e
      | Inr u \<Rightarrow>
          (let bps = openapi_breakpoints cfg useSmartcrop (breakpoints_or_default breakpoints);
               st1 = openapi_loop useSmartcrop bps ([], u);
               st2 = openapi_fallback_loop useSmartcrop (length bps) 0 bps st1;
               a' = (if truthy (default_alt a) then toStr (default_alt a) else []);
               u' = (if length bps > 0
                     then appendQueryParams (snd st2) [(''width'', width_or_2000 (last bps))]
                     else snd st2)
           in Inr \<lparr>children = fst st2 @ [Img (loading_attr eager) a' u'],
                   classList = (if useSmartcrop then [''smartcrop''] else []),
                   smartcrop_status = (if useSmartcrop then Some ''loaded'' else None)\<rparr>))"

section \<open>External-image classifier\<close>

text \<open>
  A markup element as the classifier and the orchestrator read it: its \<^verbatim>\<open>tagName\<close>, its
  attributes (\<^verbatim>\<open>getAttribute\<close>, \<open>None\<close> for \<^verbatim>\<open>null\<close>), its \<^verbatim>\<open>textContent\<close>, and
  whether \<^verbatim>\<open>closest('picture')\<close> finds an ancestor.
\<close>

record node =
  tagName :: string
  attributes :: "string \<Rightarrow> string option"
  textContent :: string
  closest_picture :: bool

definition getImageSrcUrl :: "node \<Rightarrow> string option" where
  "getImageSrcUrl element =
     (if tagName element = ''IMG'' then attributes element ''src''
      else if tagName element = ''A'' then attributes element ''href''
      else None)"

text \<open>A picture creator as the orchestrator of the positional copy calls it:
  \<^verbatim>\<open>handler(extImageSrc, null, useSmartcrop)\<close>.\<close>

type_synonym handler = "string \<Rightarrow> jsval \<Rightarrow> bool \<Rightarrow> error + picture"

text \<open>The \<^verbatim>\<open>for ... of\<close> over the configured prefixes, positional copy: only a pair
  \<^verbatim>\<open>[prefix, creator]\<close> can match, the first that does ends the loop.\<close>

fun match_prefix :: "string \<Rightarrow> 'h prefix_item list \<Rightarrow> 'h option" where
  "match_prefix u [] = None"
| "match_prefix u (Tuple2 p h # items) = (if prefix p u then Some h else match_prefix u items)"
| "match_prefix u (Other p # items) = match_prefix u items"

text \<open>The same loop in the other copy: an entry that is not a pair is compared as a
  prefix too and leaves the format \<^verbatim>\<open>null\<close>.\<close>

fun match_prefix_opts :: "string \<Rightarrow> (string option) prefix_item list \<Rightarrow> string option option" where
  "match_prefix_opts u [] = None"
| "match_prefix_opts u (Tuple2 p f # items) =
     (if prefix p u then Some f else match_prefix_opts u items)"
| "match_prefix_opts u (Other p # items) =
     (if prefix p u then Some None else match_prefix_opts u items)"

text \<open>\<^verbatim>\<open>element.textContent.trim() === externalImageMarker\<close>; the marker is
  \<^verbatim>\<open>undefined\<close> (\<open>None\<close>) when the caller passes none.\<close>

definition marker_text :: "node \<Rightarrow> string option \<Rightarrow> bool" where
  "marker_text element externalImageMarker = (Some (trim (textContent element)) = externalImageMarker)"

text \<open>\<^verbatim>\<open>isExternalImage\<close> of the positional copy. The result is the pair
  \<^verbatim>\<open>{ isExternal, createOptimizedPictureHandler }\<close>; a configured creator is
  \<open>None\<close> when the configuration pairs the prefix with a falsy value.\<close>

definition isExternalImage ::
  "platform \<Rightarrow> (handler option) hlx \<Rightarrow> node \<Rightarrow> string option \<Rightarrow> bool \<times> handler option" where
  "isExternalImage pf cfg element externalImageMarker =
     (if tagName element = ''IMG'' \<and> closest_picture element then (False, None)
      else if tagName element = ''IMG'' then
        (let url = getImageSrcUrl element
         in if \<not> str_truthy url then (False, None)
            else case match_prefix (the url) (externalImageUrlPrefixes cfg) of
                   None \<Rightarrow> (False, None)
                 | Some h \<Rightarrow> (hasImageExtension url, h))
      else if tagName element = ''A'' \<and> marker_text element externalImageMarker then
        (True, Some (\<lambda>s a e. createOptimizedPicture pf s a e None))
      else if tagName element = ''A'' then
        (let url = getImageSrcUrl element
         in if \<not> str_truthy url then (False, None)
            else (hasImageExtension url, Some (\<lambda>s a e. createOptimizedPicture pf s a e None)))
      else (False, None))"

text \<open>\<^verbatim>\<open>isExternalImage\<close> of the other copy: \<^verbatim>\<open>{ isExternal, imageFormat }\<close>.\<close>

definition isExternalImage_opts ::
  "(string option) hlx \<Rightarrow> node \<Rightarrow> string option \<Rightarrow> bool \<times> string option" where
  "isExternalImage_opts cfg element externalImageMarker =
     (if tagName element = ''IMG'' \<and> closest_picture element then (False, None)
      else if tagName element = ''IMG'' then
        (let url = getImageSrcUrl element
         in if \<not> str_truthy url then (False, None)
            else case match_prefix_opts (the url) (externalImageUrlPrefixes cfg) of
                   None \<Rightarrow> (False, None)
                 | Some f \<Rightarrow> (hasImageExtension url, f))
      else if tagName element = ''A'' \<and> marker_text element externalImageMarker then (True, None)
      else if tagName element = ''A'' then (hasImageExtension (getImageSrcUrl element), None)
      else (False, None))"

section \<open>Decoration orchestrator\<close>

text \<open>
  The copy of the query parameters of the original link onto the children of the new
  picture. Each child's attribute was written by a synthesiser as a serialised absolute
  URL, so \<^verbatim>\<open>new URL(srcset, extImageSrc)\<close> is the URL object it was serialised from.
\<close>

definition copy_params :: "(string \<times> string) list \<Rightarrow> element \<Rightarrow> element" where
  "copy_params sp child =
     (case child of
        Source m t u \<Rightarrow> Source m t (appendQueryParams u sp)
      | Img l a u \<Rightarrow> Img l a (appendQueryParams u sp))"

definition copy_query_params :: "platform \<Rightarrow> string \<Rightarrow> picture \<Rightarrow> error + picture" where
  "copy_query_params pf extImageSrc extPicture =
     (case new_URL pf extImageSrc of
        Inl e \<Rightarrow> Inl e
      | Inr extImageUrl \<Rightarrow>
          Inr (extPicture\<lparr>children := map (copy_params (searchParams extImageUrl)) (children extPicture)\<rparr>))"



text \<open>
  The callback of \<^verbatim>\<open>extImages.forEach\<close>, on an element as \<^verbatim>\<open>markSmartCropImages\<close>
  left it (its \<^verbatim>\<open>data-smartcrop-status\<close> is among the attributes). The result is the
  picture that replaces the element, \<open>None\<close> when the element stays, or the error
  that leaves the callback.
\<close>

definition decorateExternalImage ::
  "platform \<Rightarrow> (handler option) hlx \<Rightarrow> string option \<Rightarrow> node \<Rightarrow> error + picture option" where
  "decorateExternalImage pf cfg deliveryMarker extImage =
     (let (isExternal, createOptimizedPictureHandler) = isExternalImage pf cfg extImage deliveryMarker
      in if \<not> isExternal then Inr None
         else
           (let renderSmartCrop = attributes extImage ''data-smartcrop-status'';
                extImageSrc = getImageSrcUrl extImage
            in if \<not> str_truthy extImageSrc then Inr None
               else
                 (case createOptimizedPictureHandler of
                    Some h \<Rightarrow>
                      (case h (the extImageSrc) JNull (renderSmartCrop = Some ''loading'') of
                         Inl e \<Rightarrow> Inl e
                       | Inr extPicture \<Rightarrow>
                           map_sum id Some (copy_query_params pf (the extImageSrc) extPicture))
                  | None \<Rightarrow>
                      if renderSmartCrop = Some ''loading'' then
                        (case createOptimizedPictureWithSmartcrop pf cfg (the extImageSrc) Undefined False [] of
                           Inl e \<Rightarrow> Inl e
                         | Inr extPicture \<Rightarrow> Inr (Some (extPicture\<lparr>smartcrop_status := Some ''loaded''\<rparr>)))
                      else
                        (case createOptimizedPicture pf (the extImageSrc) Undefined False None of
                           Inl e \<Rightarrow> Inl e
                         | Inr extPicture \<Rightarrow>
                             map_sum id Some (copy_query_params pf (the extImageSrc) extPicture)))))"

definition imageFormat_or_webp :: "string option \<Rightarrow> string option" where
  "imageFormat_or_webp f = (if str_truthy f then f else Some ''webp'')"

definition decorateExternalImage_opts ::
  "platform \<Rightarrow> (string option) hlx \<Rightarrow> string option \<Rightarrow> node \<Rightarrow> error + picture option" where
  "decorateExternalImage_opts pf cfg deliveryMarker extImage =
     (let (isExternal, imageFormat) = isExternalImage_opts cfg extImage deliveryMarker
      in if \<not> isExternal then Inr None
         else
           (let renderSmartCrop = attributes extImage ''data-smartcrop-status'';
                extImageSrc = getImageSrcUrl extImage
            in if \<not> str_truthy extImageSrc then Inr None
               else if renderSmartCrop = Some ''loading'' then
                 (case createOptimizedPictureWithSmartcrop_opts pf cfg (the extImageSrc) Undefined False []
                         (imageFormat_or_webp imageFormat) of
                    Inl e \<Rightarrow> Inl e
                  | Inr extPicture \<Rightarrow> Inr (Some (extPicture\<lparr>smartcrop_status := Some ''loaded''\<rparr>)))
               else
                 (case createOptimizedPicture_opts pf (the extImageSrc) Undefined False None
                         (imageFormat_or_webp imageFormat) of
                    Inl e \<Rightarrow> Inl e
                  | Inr extPicture \<Rightarrow>
                      map_sum id Some (copy_query_params pf (the extImageSrc) extPicture))))"

text \<open>
  \<^verbatim>\<open>forEach\<close> over the snapshot that \<^verbatim>\<open>querySelectorAll\<close> returned, in document order.
  The result gives, element by element, the picture that replaced it (\<open>None\<close>: the
  element is still there), and the error that ended the loop, if one did: the elements
  after the one that threw are not visited.
\<close>

fun forEach_replace :: "('a \<Rightarrow> error + 'b option) \<Rightarrow> 'a list \<Rightarrow> 'b option list \<times> error option" where
  "forEach_replace f [] = ([], None)"
| "forEach_replace f (x # xs) =
     (case f x of
        Inl e \<Rightarrow> (None # map (\<lambda>_. None) xs, Some e)
      | Inr r \<Rightarrow> (let (rs, err) = forEach_replace f xs in (r # rs, err)))"

definition decorateExternalImages ::
  "platform \<Rightarrow> (handler option) hlx \<Rightarrow> node list \<Rightarrow> string option \<Rightarrow> picture option list \<times> error option" where
  "decorateExternalImages pf cfg extImages deliveryMarker =
     forEach_replace (decorateExternalImage pf cfg deliveryMarker) extImages"

definition decorateExternalImages_opts ::
  "platform \<Rightarrow> (string option) hlx \<Rightarrow> node list \<Rightarrow> string option \<Rightarrow> picture option list \<times> error option" where
  "decorateExternalImages_opts pf cfg extImages deliveryMarker =
     forEach_replace (decorateExternalImage_opts pf cfg deliveryMarker) extImages"

section \<open>Alt-encoded delivery resolver\<close>

text \<open>A \<^verbatim>\<open>picture\<close> of the markup, as the resolver reads it: what
  \<^verbatim>\<open>pictureElement.querySelector('img')\<close> returns, \<open>None\<close> for \<^verbatim>\<open>null\<close>, else the
  attributes of that image.\<close>

record picture_element =
  querySelector_img :: "(string \<Rightarrow> string option) option"

text \<open>\<^verbatim>\<open>try { ... } catch (error) { /* Do nothing */ }\<close> around a body that may replace
  the picture.\<close>

definition try_catch :: "error + 'a option \<Rightarrow> error + 'a option" where
  "try_catch body = (case body of Inl e \<Rightarrow> Inr None | Inr r \<Rightarrow> Inr r)"

text \<open>\<^verbatim>\<open>JSON.parse(decodeURIComponent(alt))\<close> followed by
  \<^verbatim>\<open>const { deliveryUrl, altText } = deliveryObject\<close>; a missing \<^verbatim>\<open>alt\<close> attribute is
  \<^verbatim>\<open>null\<close> and is decoded as the string \<^verbatim>\<open>null\<close>.\<close>

definition delivery_payload :: "platform \<Rightarrow> string option \<Rightarrow> error + jsval \<times> jsval" where
  "delivery_payload pf a =
     (case decodeURIComponent pf (case a of None \<Rightarrow> ''null'' | Some t \<Rightarrow> t) of
        Inl e \<Rightarrow> Inl e
      | Inr text \<Rightarrow>
          (case JSON_parse pf text of
             Inl e \<Rightarrow> Inl e
           | Inr deliveryObject \<Rightarrow>
               (case getField deliveryObject ''deliveryUrl'' of
                  Inl e \<Rightarrow> Inl e
                | Inr deliveryUrl \<Rightarrow>
                    (case getField deliveryObject ''altText'' of
                       Inl e \<Rightarrow> Inl e
                     | Inr altText \<Rightarrow> Inr (deliveryUrl, altText)))))"

text \<open>The callback of \<^verbatim>\<open>[...pictureElements].forEach\<close>, positional copy. Reading the
  \<^verbatim>\<open>alt\<close> of the image stands before the \<^verbatim>\<open>try\<close>.\<close>

definition decorateImageFromAlt ::
  "platform \<Rightarrow> 'h hlx \<Rightarrow> picture_element \<Rightarrow> error + picture option" where
  "decorateImageFromAlt pf cfg pictureElement =
     (case querySelector_img pictureElement of
        None \<Rightarrow> Inl TypeError
      | Some imgElement \<Rightarrow>
          try_catch
            (case delivery_payload pf (imgElement ''alt'') of
               Inl e \<Rightarrow> Inl e
             | Inr (deliveryUrl, altText) \<Rightarrow>
                 if \<not> truthy deliveryUrl then Inr None
                 else map_sum id Some
                   (if isDMOpenAPIUrl (toStr deliveryUrl)
                    then createOptimizedPictureForDMOpenAPI pf cfg (toStr deliveryUrl) altText True False None
                    else createOptimizedPictureForDM pf (toStr deliveryUrl) altText False None)))"

definition decorateImageFromAlt_opts ::
  "platform \<Rightarrow> 'h hlx \<Rightarrow> picture_element \<Rightarrow> error + picture option" where
  "decorateImageFromAlt_opts pf cfg pictureElement =
     (case querySelector_img pictureElement of
        None \<Rightarrow> Inl TypeError
      | Some imgElement \<Rightarrow>
          try_catch
            (case delivery_payload pf (imgElement ''alt'') of
               Inl e \<Rightarrow> Inl e
             | Inr (deliveryUrl, altText) \<Rightarrow>
                 if \<not> truthy deliveryUrl then Inr None
                 else map_sum id Some
                   (if isDMOpenAPIUrl (toStr deliveryUrl)
                    then createOptimizedPictureWithSmartcrop_opts pf cfg (toStr deliveryUrl) altText False [] None
                    else createOptimizedPicture_opts pf (toStr deliveryUrl) altText False None None)))"

definition decorateImagesFromAlt ::
  "platform \<Rightarrow> 'h hlx \<Rightarrow> picture_element list \<Rightarrow> picture option list \<times> error option" where
  "decorateImagesFromAlt pf cfg pictureElements =
     forEach_replace (decorateImageFromAlt pf cfg) pictureElements"

definition decorateImagesFromAlt_opts ::
  "platform \<Rightarrow> 'h hlx \<Rightarrow> picture_element list \<Rightarrow> picture option list \<times> error option" where
  "decorateImagesFromAlt_opts pf cfg pictureElements =
     forEach_replace (decorateImageFromAlt_opts pf cfg) pictureElements"

section \<open>Block loader\<close>

text \<open>
  \<^verbatim>\<open>loadBlock\<close> is an \<^verbatim>\<open>async\<close> function on the single thread of the page. It is
  modelled by the part that runs within the call, up to the \<^verbatim>\<open>await\<close>, and by the
  continuations that run when the stylesheet, the module import and the default export
  of the module settle. What it does is recorded as a trace of effects.
\<close>

datatype effect =
  SetStatus string | Decorate | LoadCSS string | AppendLink string | Import string
  | InvokeDefault | ConsoleLog string

datatype css_state = CssPending | CssLoaded | CssFailed

datatype script_state = Importing | Running | ScriptDone | ScriptFailed

text \<open>The load in flight: the promise \<^verbatim>\<open>cssLoaded\<close>, the progress of the
  \<^verbatim>\<open>async\<close> function behind \<^verbatim>\<open>decorationComplete\<close>, and whether the code after
  \<^verbatim>\<open>await Promise.all([...])\<close> has run.\<close>

record flight =
  css :: css_state
  script :: script_state
  joined :: bool

text \<open>A block with the part of the page \<^verbatim>\<open>loadBlock\<close> touches:
  \<^verbatim>\<open>block.dataset.blockStatus\<close> and \<^verbatim>\<open>blockName\<close>, the markup of the block, the
  stylesheet links in the head of the document.\<close>

record 'dom block =
  blockStatus :: "string option"
  blockName :: string
  markup :: 'dom
  head_links :: "string list"
  trace :: "effect list"
  pending :: "flight option"

definition basePath_of :: "'h hlx \<Rightarrow> string \<Rightarrow> string" where
  "basePath_of cfg name =
     (if str_truthy (aem_codeBasePath cfg) \<and> name \<in> set (aem_blocks cfg)
      then codeBasePath cfg @ the (aem_codeBasePath cfg)
      else codeBasePath cfg)"

definition block_file :: "'h hlx \<Rightarrow> string \<Rightarrow> string \<Rightarrow> string" where
  "block_file cfg name ending = basePath_of cfg name @ ''/blocks/'' @ name @ ''/'' @ name @ ending"

text \<open>The two messages of \<^verbatim>\<open>console.log\<close>.\<close>

definition block_failure :: "string \<Rightarrow> effect" where
  "block_failure name = ConsoleLog (''failed to load block '' @ name)"

definition module_failure :: "string \<Rightarrow> effect" where
  "module_failure name = ConsoleLog (''failed to load module for '' @ name)"

definition emit :: "effect \<Rightarrow> 'dom block \<Rightarrow> 'dom block" where
  "emit e b = b\<lparr>trace := trace b @ [e]\<rparr>"

text \<open>A call of \<^verbatim>\<open>loadBlock(block)\<close>, up to its first \<^verbatim>\<open>await\<close>. \<open>decorate\<close> is
  \<^verbatim>\<open>decorateExternalImages(block); decorateImagesFromAlt(block)\<close> on the markup of the
  block: the markup it leaves and the error it threw, if any. \<^verbatim>\<open>loadCSS\<close> resolves at
  once when the head has the link already.\<close>

definition loadBlock_call ::
  "'h hlx \<Rightarrow> ('dom \<Rightarrow> 'dom \<times> error option) \<Rightarrow> 'dom block \<Rightarrow> 'dom block" where
  "loadBlock_call cfg decorate b =
     (if blockStatus b \<noteq> Some ''loading'' \<and> blockStatus b \<noteq> Some ''loaded'' then
        (let b1 = emit (SetStatus ''loading'') (b\<lparr>blockStatus := Some ''loading''\<rparr>);
             (dom', err) = decorate (markup b1);
             b2 = emit Decorate (b1\<lparr>markup := dom'\<rparr>)
         in case err of
              Some e \<Rightarrow>
                emit (SetStatus ''loaded'')
                  ((emit (block_failure (blockName b)) b2)
                     \<lparr>blockStatus := Some ''loaded''\<rparr>)
            | None \<Rightarrow>
                (let href = block_file cfg (blockName b) ''.css'';
                     b3 = emit (LoadCSS href) b2;
                     b4 = (if href \<in> set (head_links b3) then b3
                           else emit (AppendLink href) (b3\<lparr>head_links := head_links b3 @ [href]\<rparr>));
                     c = (if href \<in> set (head_links b3) then CssLoaded else CssPending);
                     b5 = emit (Import (block_file cfg (blockName b) ''.js'')) b4
                 in b5\<lparr>pending := Some \<lparr>css = c, script = Importing, joined = False\<rparr>\<rparr>))
      else b)"

text \<open>The code after \<^verbatim>\<open>await Promise.all([cssLoaded, decorationComplete])\<close>. The
  promise rejects as soon as \<^verbatim>\<open>cssLoaded\<close> rejects, which the outer \<^verbatim>\<open>catch\<close> logs;
  it fulfils when both have; \<^verbatim>\<open>decorationComplete\<close> never rejects.\<close>

definition join :: "'dom block \<Rightarrow> 'dom block" where
  "join b =
     (case pending b of
        None \<Rightarrow> b
      | Some f \<Rightarrow>
          if joined f then b
          else if css f = CssFailed then
            emit (SetStatus ''loaded'')
              ((emit (block_failure (blockName b)) b)
                 \<lparr>blockStatus := Some ''loaded'', pending := Some (f\<lparr>joined := True\<rparr>)\<rparr>)
          else if css f = CssLoaded \<and> (script f = ScriptDone \<or> script f = ScriptFailed) then
            emit (SetStatus ''loaded'')
              (b\<lparr>blockStatus := Some ''loaded'', pending := Some (f\<lparr>joined := True\<rparr>)\<rparr>)
          else b)"

text \<open>What the page can do to a block: call \<^verbatim>\<open>loadBlock\<close> on it, fire
  \<^verbatim>\<open>onload\<close> or \<^verbatim>\<open>onerror\<close> of the stylesheet link, settle the \<^verbatim>\<open>import()\<close> (with
  a module that has a default export or has none, or with a failure), and let the
  default export return or throw.\<close>

datatype event =
  Call | CssOnload | CssOnerror | ImportResolved bool | ImportRejected
  | DefaultReturned | DefaultThrew

definition set_css :: "css_state \<Rightarrow> 'dom block \<Rightarrow> 'dom block" where
  "set_css c b = (case pending b of None \<Rightarrow> b | Some f \<Rightarrow> b\<lparr>pending := Some (f\<lparr>css := c\<rparr>)\<rparr>)"

definition set_script :: "script_state \<Rightarrow> 'dom block \<Rightarrow> 'dom block" where
  "set_script x b = (case pending b of None \<Rightarrow> b | Some f \<Rightarrow> b\<lparr>pending := Some (f\<lparr>script := x\<rparr>)\<rparr>)"

definition css_is :: "css_state \<Rightarrow> 'dom block \<Rightarrow> bool" where
  "css_is c b = (case pending b of None \<Rightarrow> False | Some f \<Rightarrow> css f = c)"

definition script_is :: "script_state \<Rightarrow> 'dom block \<Rightarrow> bool" where
  "script_is x b = (case pending b of None \<Rightarrow> False | Some f \<Rightarrow> script f = x)"

text \<open>One event. An event that has nothing to settle (no stylesheet pending, no import
  in flight, no default export running) does not occur and leaves the block as it is.\<close>

fun step :: "'h hlx \<Rightarrow> ('dom \<Rightarrow> 'dom \<times> error option) \<Rightarrow> event \<Rightarrow> 'dom block \<Rightarrow> 'dom block" where
  "step cfg decorate Call b = loadBlock_call cfg decorate b"
| "step cfg decorate CssOnload b =
     (if css_is CssPending b then join (set_css CssLoaded b) else b)"
| "step cfg decorate CssOnerror b =
     (if css_is CssPending b then join (set_css CssFailed b) else b)"
| "step cfg decorate (ImportResolved has_default) b =
     (if script_is Importing b then
        (if has_default then emit InvokeDefault (set_script Running b)
         else join (set_script ScriptDone b))
      else b)"
| "step cfg decorate ImportRejected b =
     (if script_is Importing b then
        join (set_script ScriptFailed
                (emit (module_failure (blockName b)) b))
      else b)"
| "step cfg decorate DefaultReturned b =
     (if script_is Running b then join (set_script ScriptDone b) else b)"
| "step cfg decorate DefaultThrew b =
     (if script_is Running b then
        join (set_script ScriptFailed
                (emit (module_failure (blockName b)) b))
      else b)"

fun run :: "'h hlx \<Rightarrow> ('dom \<Rightarrow> 'dom \<times> error option) \<Rightarrow> event list \<Rightarrow> 'dom block \<Rightarrow> 'dom block" where
  "run cfg decorate [] b = b"
| "run cfg decorate (e # es) b = run cfg decorate es (step cfg decorate e b)"

text \<open>How often an effect stands in a trace.\<close>

definition count_effect :: "effect \<Rightarrow> effect list \<Rightarrow> nat" where
  "count_effect e tr = length (filter (\<lambda>x. x = e) tr)"

definition imports_in :: "effect list \<Rightarrow> nat" where
  "imports_in tr = length (filter (\<lambda>x. case x of Import m \<Rightarrow> True | _ \<Rightarrow> False) tr)"

definition css_loads_in :: "effect list \<Rightarrow> nat" where
  "css_loads_in tr = length (filter (\<lambda>x. case x of LoadCSS h \<Rightarrow> True | _ \<Rightarrow> False) tr)"

section \<open>Notions the properties are stated with\<close>

text \<open>A pair as \<^verbatim>\<open>appendQueryParams\<close> leaves it when its key is among the written
  ones.\<close>

definition settle :: "(string \<times> string) list \<Rightarrow> string \<times> string \<Rightarrow> string \<times> string" where
  "settle params q = (if written params (fst q) then (fst q, last_value params (fst q)) else q)"

text \<open>Which children of a picture are which: a source with a \<^verbatim>\<open>type\<close> attribute is
  negotiated by type, one without is a fallback in the format of the original.\<close>

definition is_negotiated_source :: "element \<Rightarrow> bool" where
  "is_negotiated_source e = (case e of Source m t u \<Rightarrow> t \<noteq> None | Img l a u \<Rightarrow> False)"

definition is_fallback_source :: "element \<Rightarrow> bool" where
  "is_fallback_source e = (case e of Source m t u \<Rightarrow> t = None | Img l a u \<Rightarrow> False)"

definition is_img :: "element \<Rightarrow> bool" where
  "is_img e = (case e of Source m t u \<Rightarrow> False | Img l a u \<Rightarrow> True)"


text \<open>The URL of a synthesised child when the loops of \<^verbatim>\<open>createOptimizedPicture\<close> reach
  breakpoint \<open>br\<close>: the source URL with its \<^verbatim>\<open>width\<close> set.\<close>

definition with_width :: "url \<Rightarrow> breakpoint \<Rightarrow> url" where
  "with_width u br = appendQueryParams u [(''width'', str_of (width br))]"



text \<open>The URL of a source when the loops of the smart-crop creator reach breakpoint
  \<open>br\<close>: the source URL with its \<^verbatim>\<open>smartcrop\<close> set. A child carries the query of the
  original but for \<^verbatim>\<open>smartcrop\<close> when it has, under every other key of the original,
  the values the original has.\<close>

definition with_crop :: "url \<Rightarrow> breakpoint \<Rightarrow> url" where
  "with_crop u br = appendQueryParams u [(''smartcrop'', str_of (smartcrop br))]"


text \<open>Two prefix configurations, one per copy of the module, that list the same
  prefixes, each as a pair; and two that pair each prefix with nothing: no creator in the
  positional copy, no format in the other.\<close>

definition plain_pairs :: "('a option) prefix_item list \<Rightarrow> ('b option) prefix_item list \<Rightarrow> bool" where
  "plain_pairs xs ys =
     list_all2 (\<lambda>x y. case (x, y) of (Tuple2 p None, Tuple2 q None) \<Rightarrow> p = q | _ \<Rightarrow> False) xs ys"


definition paired_prefixes :: "'a prefix_item list \<Rightarrow> 'b prefix_item list \<Rightarrow> bool" where
  "paired_prefixes xs ys =
     list_all2 (\<lambda>x y. case (x, y) of (Tuple2 p h, Tuple2 q f) \<Rightarrow> p = q | _ \<Rightarrow> False) xs ys"

text \<open>An \<^verbatim>\<open>alt\<close> that is no delivery payload: decoding or parsing it throws, or it
  parses to an object that has no \<^verbatim>\<open>deliveryUrl\<close>.\<close>

definition not_a_payload :: "platform \<Rightarrow> string option \<Rightarrow> bool" where
  "not_a_payload pf a =
     (case decodeURIComponent pf (case a of None \<Rightarrow> ''null'' | Some t \<Rightarrow> t) of
        Inl e \<Rightarrow> True
      | Inr text \<Rightarrow>
          (case JSON_parse pf text of
             Inl e \<Rightarrow> True
           | Inr v \<Rightarrow> (case v of JObject fs \<Rightarrow> map_of fs ''deliveryUrl'' = None | _ \<Rightarrow> False)))"

text \<open>A block on which no load has started, and the states of a load in flight.\<close>

definition fresh :: "'dom block \<Rightarrow> bool" where
  "fresh b = (trace b = [] \<and> pending b = None)"

definition gated :: "'dom block \<Rightarrow> bool" where
  "gated b = (blockStatus b = Some ''loading'' \<or> blockStatus b = Some ''loaded'')"

definition css_settled :: "'dom block \<Rightarrow> bool" where
  "css_settled b = (css_is CssLoaded b \<or> css_is CssFailed b)"

definition script_settled :: "'dom block \<Rightarrow> bool" where
  "script_settled b = (script_is ScriptDone b \<or> script_is ScriptFailed b)"

text \<open>
  What holds of a block at every moment of a load. \<open>counted\<close>: the trace starts with the
  status set to \<^verbatim>\<open>loading\<close>; without a load in flight nothing has been requested, and a
  decoration that has run has left the block gated; with a load in flight there was one
  decoration, one stylesheet request and one import, and the default export has been
  invoked at most once, and not before the import has settled. \<open>joined_right\<close>: the code after the
  \<^verbatim>\<open>await\<close> has run exactly when the stylesheet failed, or loaded with the script
  branch settled; the status is \<^verbatim>\<open>loaded\<close> from then on and \<^verbatim>\<open>loading\<close> before; each
  failure is in the log.
\<close>

definition counted :: "'dom block \<Rightarrow> bool" where
  "counted b =
     ((trace b = [] \<or> hd (trace b) = SetStatus ''loading'') \<and>
      (case pending b of
         None \<Rightarrow>
           imports_in (trace b) = 0 \<and> css_loads_in (trace b) = 0 \<and>
           count_effect InvokeDefault (trace b) = 0 \<and>
           (if trace b = [] then count_effect Decorate (trace b) = 0
            else count_effect Decorate (trace b) = 1 \<and> gated b)
       | Some f \<Rightarrow>
           gated b \<and> trace b \<noteq> [] \<and> count_effect Decorate (trace b) = 1 \<and>
           imports_in (trace b) = 1 \<and> css_loads_in (trace b) = 1 \<and>
           count_effect InvokeDefault (trace b) \<le> (if script f = Importing then 0 else 1)))"

definition joined_right :: "string \<Rightarrow> 'dom block \<Rightarrow> bool" where
  "joined_right name b =
     (blockName b = name \<and>
      (case pending b of
         None \<Rightarrow> False
       | Some f \<Rightarrow>
           joined f = (css f = CssFailed \<or>
                       (css f = CssLoaded \<and> (script f = ScriptDone \<or> script f = ScriptFailed))) \<and>
           blockStatus b = Some (if joined f then ''loaded'' else ''loading'') \<and>
           (css f \<noteq> CssFailed \<or> block_failure name \<in> set (trace b)) \<and>
           (script f \<noteq> ScriptFailed \<or>
            module_failure name \<in> set (trace b))))"

section \<open>Worked examples\<close>

text \<open>A platform that parses the URLs and the payload of the examples as the browser
  does, and nothing else.\<close>

definition cdn_img :: "(string \<times> string) list \<Rightarrow> url" where
  "cdn_img q = \<lparr>origin = ''https://cdn'', pathname = ''/img.jpg'', searchParams = q, hash = []\<rparr>"

definition cdn_asset :: "(string \<times> string) list \<Rightarrow> url" where
  "cdn_asset q =
     \<lparr>origin = ''https://cdn'', pathname = ''/adobe/assets/urn:aaid:aem:1'', searchParams = q, hash = []\<rparr>"

definition cdn_asset_img :: "(string \<times> string) list \<Rightarrow> url" where
  "cdn_asset_img q =
     \<lparr>origin = ''https://cdn'', pathname = ''/adobe/assets/urn:aaid:aem:1/as/img.jpg'',
      searchParams = q, hash = []\<rparr>"

definition example_alt :: string where
  "example_alt =
     ''%7B%22deliveryUrl%22%3A%22https%3A%2F%2Fcdn%2Fimg.jpg%22%2C%22altText%22%3A%22cat%22%7D''"

definition example_json :: string where
  "example_json = ''{\"deliveryUrl\":\"https://cdn/img.jpg\",\"altText\":\"cat\"}''"

definition example_platform :: platform where
  "example_platform =
     \<lparr>url_parser = (\<lambda>s.
        if s = ''https://cdn/img.jpg'' then Some (cdn_img [])
        else if s = ''https://cdn/img.jpg?crop=1,1,10,10'' then Some (cdn_img [(''crop'', ''1,1,10,10'')])
        else if s = ''https://cdn/img.jpg?crop=1,1,10,10&width=100''
          then Some (cdn_img [(''crop'', ''1,1,10,10''), (''width'', ''100'')])
        else if s = ''https://cdn/adobe/assets/urn:aaid:aem:1?smartcrop=hero''
          then Some (cdn_asset [(''smartcrop'', ''hero'')])
        else if s = ''https://cdn/adobe/assets/urn:aaid:aem:1/as/img.jpg?crop=1,1,10,10&smartcrop=hero''
          then Some (cdn_asset_img [(''crop'', ''1,1,10,10''), (''smartcrop'', ''hero'')])
        else None),
      url_resolver = (\<lambda>s base.
        if s = ''/media/img.jpg'' \<and> base = ''https://site/page''
        then Some \<lparr>origin = ''https://site'', pathname = ''/media/img.jpg'', searchParams = [], hash = []\<rparr>
        else None),
      uri_decoder = (\<lambda>s. if s = example_alt then Some example_json else None),
      json_parser = (\<lambda>s.
        if s = example_json
        then Some (JObject [(''deliveryUrl'', JString ''https://cdn/img.jpg''), (''altText'', JString ''cat'')])
        else None),
      location_href = ''https://site/page''\<rparr>"

definition example_hlx :: "'h hlx" where
  "example_hlx =
     \<lparr>codeBasePath = [], aem_codeBasePath = None, aem_blocks = [], externalImageUrlPrefixes = [],
      smartCrops = Some [(''Large'', \<lparr>minWidth = JNumber ''1200'', maxWidth = JNumber ''1600''\<rparr>)]\<rparr>"

definition marker_link :: "string \<Rightarrow> (string \<Rightarrow> string option) \<Rightarrow> node" where
  "marker_link href others =
     \<lparr>tagName = ''A'', attributes = others(''href'' \<mapsto> href), textContent = ''//External Image//'',
      closest_picture = False\<rparr>"

definition standalone_img :: "string \<Rightarrow> node" where
  "standalone_img s =
     \<lparr>tagName = ''IMG'', attributes = [''src'' \<mapsto> s], textContent = [], closest_picture = False\<rparr>"

definition picture_with_alt :: "string \<Rightarrow> picture_element" where
  "picture_with_alt a = \<lparr>querySelector_img = Some [''alt'' \<mapsto> a]\<rparr>"

definition picture_without_img :: picture_element where
  "picture_without_img = \<lparr>querySelector_img = None\<rparr>"

definition example_block :: "unit block" where
  "example_block =
     \<lparr>blockStatus = None, blockName = ''hero'', markup = (), head_links = [], trace = [], pending = None\<rparr>"

definition no_decoration :: "unit \<Rightarrow> unit \<times> error option" where
  "no_decoration d = (d, None)"

section \<open>Properties of the query codec\<close>

lemma getAll_sp_set_same: "sp_getAll k (sp_set k v ps) = [v]"
  by (induction ps) (auto simp: sp_getAll_def filter_empty_conv)

lemma keep_sp_set:
  "P k \<Longrightarrow> filter (\<lambda>q. \<not> P (fst q)) (sp_set k v ps) = filter (\<lambda>q. \<not> P (fst q)) ps"
proof (induction ps)
  case Nil then show ?case by simp
next
  case (Cons p ps)
  have "filter (\<lambda>q. fst q \<noteq> k \<and> \<not> P (fst q)) ps = filter (\<lambda>q. \<not> P (fst q)) ps"
    using Cons.prems by (intro filter_cong) auto
  with Cons show ?case by auto
qed

lemma getAll_sp_set_other: "k' \<noteq> k \<Longrightarrow> sp_getAll k' (sp_set k v ps) = sp_getAll k' ps"
  using keep_sp_set[of "\<lambda>x. x \<noteq> k'" k v ps] by (simp add: sp_getAll_def)

lemma last_value_Cons_in:
  "k \<in> fst ` set params \<Longrightarrow> last_value (p # params) k = last_value params k"
  by (auto simp: last_value_def map_add_def map_of_eq_None_iff split: option.splits)

lemma last_value_Cons_out:
  "k \<notin> fst ` set params \<Longrightarrow> last_value ((k, v) # params) k = v"
proof -
  assume "k \<notin> fst ` set params"
  then have "map_of (rev params) k = None" by (simp add: map_of_eq_None_iff)
  then show ?thesis by (simp add: last_value_def map_add_def)
qed

lemma written_Cons:
  "written ((key, v) # params) k = (k \<in> set allowedParams \<and> (k = key \<or> written params k))"
  by (auto simp: written_def)

lemma forEach_param_getAll:
  "sp_getAll k (forEach_param params sp) =
     (if written params k then [last_value params k] else sp_getAll k sp)"
proof (induction params arbitrary: sp)
  case Nil then show ?case by (simp add: written_def)
next
  case (Cons p params)
  obtain key v where p: "p = (key, v)" by (cases p)
  show ?case
  proof (cases "written params k")
    case True
    then have "last_value (p # params) k = last_value params k" "written (p # params) k"
      by (simp_all add: last_value_Cons_in written_def)
    with True Cons p show ?thesis by simp
  next
    case False
    show ?thesis
    proof (cases "k = key \<and> key \<in> set allowedParams")
      case True
      with False have "last_value (p # params) k = v" "written (p # params) k"
        using p by (simp_all add: last_value_Cons_out written_def)
      with True False Cons p show ?thesis by (simp add: getAll_sp_set_same)
    next
      case F2: False
      with False have "\<not> written (p # params) k" using p by (auto simp: written_def)
      with F2 False Cons p show ?thesis by (auto simp: getAll_sp_set_other)
    qed
  qed
qed

lemma forEach_param_keep:
  "(\<And>k. written params k \<Longrightarrow> P k) \<Longrightarrow>
   filter (\<lambda>q. \<not> P (fst q)) (forEach_param params sp) = filter (\<lambda>q. \<not> P (fst q)) sp"
proof (induction params arbitrary: sp)
  case Nil then show ?case by simp
next
  case (Cons p params)
  obtain key v where p: "p = (key, v)" by (cases p)
  have IH: "filter (\<lambda>q. \<not> P (fst q)) (forEach_param params sp') = filter (\<lambda>q. \<not> P (fst q)) sp'" for sp'
    using Cons.prems by (intro Cons.IH) (simp add: written_def)
  show ?case
  proof (cases "key \<in> set allowedParams")
    case True
    then have "P key" using Cons.prems[of key] p by (simp add: written_def)
    with True p IH show ?thesis by (simp add: keep_sp_set)
  next
    case False with p IH show ?thesis by simp
  qed
qed

lemma sp_set_once:
  "length (filter (\<lambda>q. fst q = k) ps) = 1 \<Longrightarrow>
   sp_set k v ps = map (\<lambda>q. if fst q = k then (k, v) else q) ps"
proof (induction ps)
  case Nil then show ?case by simp
next
  case (Cons p ps)
  show ?case
  proof (cases "fst p = k")
    case True
    with Cons.prems have none: "filter (\<lambda>q. fst q = k) ps = []" by simp
    then have "\<forall>q \<in> set ps. fst q \<noteq> k" by (simp add: filter_empty_conv)
    then have "filter (\<lambda>q. fst q \<noteq> k) ps = ps" "map (\<lambda>q. if fst q = k then (k, v) else q) ps = ps"
      by (simp_all add: map_idI)
    with True show ?thesis by simp
  next
    case False
    with Cons show ?thesis by simp
  qed
qed

lemma settle_Cons_skip:
  "key \<notin> set allowedParams \<Longrightarrow> settle ((key, v) # params) q = settle params q"
  by (auto simp: settle_def written_def last_value_Cons_in)

lemma settle_Cons_set:
  "key \<in> set allowedParams \<Longrightarrow>
   settle params (if fst q = key then (key, v) else q) = settle ((key, v) # params) q"
  by (cases "key \<in> fst ` set params")
     (auto simp: settle_def written_def last_value_Cons_in last_value_Cons_out)

lemma fst_settle: "fst (settle params q) = fst q"
  by (simp add: settle_def)

lemma forEach_param_once:
  "(\<And>k. written params k \<Longrightarrow> length (filter (\<lambda>q. fst q = k) sp) = 1) \<Longrightarrow>
   forEach_param params sp = map (settle params) sp"
proof (induction params arbitrary: sp)
  case Nil then show ?case by (simp add: settle_def written_def)
next
  case (Cons p params)
  obtain key v where p: "p = (key, v)" by (cases p)
  show ?case
  proof (cases "key \<in> set allowedParams")
    case False
    have "forEach_param params sp = map (settle params) sp"
      using Cons.prems by (intro Cons.IH) (simp add: written_def)
    with False p show ?thesis by (simp add: settle_Cons_skip)
  next
    case True
    let ?u = "\<lambda>q. if fst q = key then (key, v) else q"
    have once: "length (filter (\<lambda>q. fst q = key) sp) = 1"
      using Cons.prems[of key] True p by (simp add: written_def)
    have set: "sp_set key v sp = map ?u sp" by (rule sp_set_once[OF once])
    have cnt: "filter (\<lambda>q. fst q = k) (map ?u sp) = map ?u (filter (\<lambda>q. fst q = k) sp)" for k
      by (induction sp) auto
    have "forEach_param params (map ?u sp) = map (settle params) (map ?u sp)"
      using Cons.prems by (intro Cons.IH) (simp add: cnt written_def)
    also have "\<dots> = map (settle (p # params)) sp"
      using True p by (simp add: settle_Cons_set comp_def)
    finally show ?thesis using True p set by simp
  qed
qed

lemma forEach_param_idem:
  "forEach_param params (forEach_param params sp) = forEach_param params sp"
proof -
  let ?r = "forEach_param params sp"
  have ga: "map snd (filter (\<lambda>q. fst q = k) ?r) = [last_value params k]" if "written params k" for k
    using that forEach_param_getAll[of k params sp] by (simp add: sp_getAll_def)
  have once: "length (filter (\<lambda>q. fst q = k) ?r) = 1" if "written params k" for k
  proof -
    from ga[OF that] have "length (map snd (filter (\<lambda>q. fst q = k) ?r)) = 1" by simp
    then show ?thesis by simp
  qed
  have "forEach_param params ?r = map (settle params) ?r"
    by (rule forEach_param_once) (rule once)
  also have "\<dots> = ?r"
  proof (intro map_idI)
    fix q assume q: "q \<in> set ?r"
    show "settle params q = q"
    proof (cases "written params (fst q)")
      case False then show ?thesis by (simp add: settle_def)
    next
      case True
      from q have "snd q \<in> set (map snd (filter (\<lambda>r. fst r = fst q) ?r))" by force
      with ga[OF True] have "snd q = last_value params (fst q)" by simp
      with True show ?thesis by (cases q) (simp add: settle_def)
    qed
  qed
  finally show ?thesis .
qed

text \<open>
  C2. For every URL and every parameter list, \<^verbatim>\<open>appendQueryParams\<close> touches the query
  only: a key of the parameters that is on the allow-list ends up exactly once on the URL,
  with the value of its last pair in the parameters; for every other key (one the
  parameters do not have, or one outside the allow-list) the URL keeps the values it had,
  and the pairs of those keys stay as they were, in their order. The function is total:
  no key makes it fail.
\<close>

theorem appendQueryParams_allow_list:
  "origin (appendQueryParams u params) = origin u \<and>
   pathname (appendQueryParams u params) = pathname u \<and>
   hash (appendQueryParams u params) = hash u \<and>
   (\<forall>k. sp_getAll k (searchParams (appendQueryParams u params)) =
      (if k \<in> set allowedParams \<and> k \<in> fst ` set params
       then [last_value params k] else sp_getAll k (searchParams u))) \<and>
   filter (\<lambda>q. \<not> (fst q \<in> set allowedParams \<and> fst q \<in> fst ` set params))
     (searchParams (appendQueryParams u params)) =
   filter (\<lambda>q. \<not> (fst q \<in> set allowedParams \<and> fst q \<in> fst ` set params)) (searchParams u)"
  using forEach_param_keep[of params "written params" "searchParams u"]
  by (simp add: appendQueryParams_def forEach_param_getAll written_def)

text \<open>An instance: \<^verbatim>\<open>width\<close> is added, \<^verbatim>\<open>crop\<close> is overwritten, \<^verbatim>\<open>format\<close> is dropped,
  \<^verbatim>\<open>foo\<close> stays.\<close>

theorem appendQueryParams_allow_list_example:
  "sp_getAll ''width'' (searchParams (appendQueryParams (cdn_img [(''crop'', ''1''), (''foo'', ''2'')])
      [(''width'', ''750''), (''format'', ''webply''), (''crop'', ''3'')])) = [''750''] \<and>
   sp_getAll ''format'' (searchParams (appendQueryParams (cdn_img [(''crop'', ''1''), (''foo'', ''2'')])
      [(''width'', ''750''), (''format'', ''webply''), (''crop'', ''3'')])) = [] \<and>
   sp_getAll ''crop'' (searchParams (appendQueryParams (cdn_img [(''crop'', ''1''), (''foo'', ''2'')])
      [(''width'', ''750''), (''format'', ''webply''), (''crop'', ''3'')])) = [''3''] \<and>
   sp_getAll ''foo'' (searchParams (appendQueryParams (cdn_img [(''crop'', ''1''), (''foo'', ''2'')])
      [(''width'', ''750''), (''format'', ''webply''), (''crop'', ''3'')])) = [''2'']"
  using appendQueryParams_allow_list[of "cdn_img [(''crop'', ''1''), (''foo'', ''2'')]"
      "[(''width'', ''750''), (''format'', ''webply''), (''crop'', ''3'')]"]
  by (simp add: cdn_img_def allowedParams_def last_value_def sp_getAll_def)

text \<open>
  C9. \<^verbatim>\<open>appendQueryParams\<close> is idempotent: a second application with the same
  parameters returns the URL of the first.
\<close>

theorem appendQueryParams_idempotent:
  "appendQueryParams (appendQueryParams u params) params = appendQueryParams u params"
  by (simp add: appendQueryParams_def forEach_param_idem)

section \<open>Properties of picture synthesis\<close>

lemma sp_set_sp_set: "sp_set k v (sp_set k v' ps) = sp_set k v ps"
  by (induction ps) auto

lemma width_allowed: "''width'' \<in> set allowedParams" "''format'' \<notin> set allowedParams"
  by (simp_all add: allowedParams_def)

lemma append_width_format:
  "appendQueryParams u [(''width'', w), (''format'', f)] = appendQueryParams u [(''width'', w)]"
  by (simp add: appendQueryParams_def width_allowed)

lemma append_width_width:
  "appendQueryParams (appendQueryParams u [(''width'', w')]) [(''width'', w)] =
   appendQueryParams u [(''width'', w)]"
  by (simp add: appendQueryParams_def width_allowed sp_set_sp_set)

lemma with_width_absorb: "with_width (with_width u b) br = with_width u br"
  by (simp add: with_width_def append_width_width)

lemma webp_loop_eq:
  "webp_loop bps (kids, u) =
     (kids @ map (\<lambda>br. Source (media_attr br) (Some ''image/webp'') (with_width u br)) bps,
      if bps = [] then u else with_width u (last bps))"
proof (induction bps arbitrary: kids u)
  case Nil then show ?case by simp
next
  case (Cons br brs)
  show ?case
    by (simp add: Cons.IH append_width_format with_width_absorb with_width_def[symmetric] Let_def)
qed

lemma format_loop_eq:
  "format_loop fmt bps (kids, u) =
     (kids @ map (\<lambda>br. Source (media_attr br) (Some (''image/'' @ fmt)) (with_width u br)) bps,
      if bps = [] then u else with_width u (last bps))"
proof (induction bps arbitrary: kids u)
  case Nil then show ?case by simp
next
  case (Cons br brs)
  show ?case
    by (simp add: Cons.IH append_width_format with_width_absorb with_width_def[symmetric] Let_def)
qed

lemma fallback_loop_eq:
  "i + length bps = n \<Longrightarrow> bps \<noteq> [] \<Longrightarrow>
   fst (fallback_loop ext a eager n i bps (kids, u)) =
     kids @ map (\<lambda>br. Source (media_attr br) None (with_width u br)) (butlast bps)
          @ [Img (loading_attr eager) a (with_width u (last bps))]"
proof (induction bps arbitrary: kids u i)
  case Nil then show ?case by simp
next
  case (Cons br brs)
  show ?case
  proof (cases "brs = []")
    case True
    with Cons.prems show ?thesis
      by (simp add: append_width_format with_width_def[symmetric] Let_def)
  next
    case False
    with Cons.prems have lt: "int i < int n - 1" by (cases brs) auto
    have "fst (fallback_loop ext a eager n (Suc i) brs (kids @ [Source (media_attr br) None (with_width u br)], with_width u br)) =
      (kids @ [Source (media_attr br) None (with_width u br)]) @ map (\<lambda>br'. Source (media_attr br') None (with_width (with_width u br) br')) (butlast brs)
          @ [Img (loading_attr eager) a (with_width (with_width u br) (last brs))]"
      using Cons.prems False by (intro Cons.IH) auto
    with lt False show ?thesis
      by (simp add: append_width_format with_width_absorb with_width_def[symmetric] Let_def)
  qed
qed

lemma fallback_loop_Nil: "fst (fallback_loop ext a eager n i [] (kids, u)) = kids"
  by simp

lemma createOptimizedPicture_children:
  assumes "new_URL pf source = Inr u" and "breakpoints_or_default breakpoints = bps" and "bps \<noteq> []"
  shows "createOptimizedPicture pf source a eager breakpoints =
     Inr \<lparr>children =
            map (\<lambda>br. Source (media_attr br) (Some ''image/webp'') (with_width u br)) bps
            @ map (\<lambda>br. Source (media_attr br) None (with_width u br)) (butlast bps)
            @ [Img (loading_attr eager) (toStr (default_alt a)) (with_width u (last bps))],
          classList = [], smartcrop_status = None\<rparr>"
  using assms
  by (simp add: createOptimizedPicture_def Let_def webp_loop_eq fallback_loop_eq with_width_absorb)

lemma createOptimizedPicture_opts_children:
  assumes "new_URL pf source = Inr u" and "breakpoints_or_default breakpoints = bps" and "bps \<noteq> []"
  shows "createOptimizedPicture_opts pf source a eager breakpoints fmt =
     Inr \<lparr>children =
            map (\<lambda>br. Source (media_attr br) (Some (''image/'' @ default_format fmt)) (with_width u br)) bps
            @ map (\<lambda>br. Source (media_attr br) None (with_width u br)) (butlast bps)
            @ [Img (loading_attr eager) (toStr (default_alt a)) (with_width u (last bps))],
          classList = [], smartcrop_status = None\<rparr>"
  using assms
  by (simp add: createOptimizedPicture_opts_def Let_def format_loop_eq fallback_loop_eq with_width_absorb)



lemma example_new_URL:
  "new_URL example_platform ''https://cdn/img.jpg'' = Inr (cdn_img [])"
  "new_URL example_platform ''https://cdn/img.jpg?crop=1,1,10,10'' = Inr (cdn_img [(''crop'', ''1,1,10,10'')])"
  "new_URL example_platform ''https://cdn/adobe/assets/urn:aaid:aem:1?smartcrop=hero'' =
     Inr (cdn_asset [(''smartcrop'', ''hero'')])"
  by code_simp+

lemma cdn_img_width:
  "with_width (cdn_img q) br = cdn_img (sp_set ''width'' (str_of (width br)) q)"
  by (simp add: with_width_def appendQueryParams_def cdn_img_def width_allowed)

lemma default_breakpoints_simps:
  "breakpoints_or_default None = default_breakpoints"
  "breakpoints_or_default (Some bps) = bps"
  "default_breakpoints \<noteq> []"
  "butlast default_breakpoints = [\<lparr>media = Some ''(min-width: 600px)'', width = Some ''2000'', smartcrop = None\<rparr>]"
  "last default_breakpoints = \<lparr>media = None, width = Some ''750'', smartcrop = None\<rparr>"
  "length default_breakpoints = 2"
  by (simp_all add: breakpoints_or_default_def default_breakpoints_def)

text \<open>
  What \<^verbatim>\<open>createOptimizedPicture\<close> returns for the breakpoints a caller passes, in both
  copies of the module, when \<^verbatim>\<open>new URL\<close> accepts the source: one source with a type per
  breakpoint, in their order, then one source without a type per breakpoint but the last,
  then the image of the last breakpoint. Every URL is the source URL with the width of the
  breakpoint set; under every other key, \<^verbatim>\<open>format\<close> among them, it has what the source
  URL has.
\<close>

lemma createOptimizedPicture_of_breakpoints:
  assumes "new_URL pf source = Inr u" and "length bps \<ge> 1"
  shows "createOptimizedPicture pf source a eager (Some bps) =
     Inr \<lparr>children =
            map (\<lambda>br. Source (media_attr br) (Some ''image/webp'') (with_width u br)) bps
            @ map (\<lambda>br. Source (media_attr br) None (with_width u br)) (butlast bps)
            @ [Img (loading_attr eager) (toStr (default_alt a)) (with_width u (last bps))],
          classList = [], smartcrop_status = None\<rparr>"
    and "createOptimizedPicture_opts pf source a eager (Some bps) fmt =
     Inr \<lparr>children =
            map (\<lambda>br. Source (media_attr br) (Some (''image/'' @ default_format fmt)) (with_width u br)) bps
            @ map (\<lambda>br. Source (media_attr br) None (with_width u br)) (butlast bps)
            @ [Img (loading_attr eager) (toStr (default_alt a)) (with_width u (last bps))],
          classList = [], smartcrop_status = None\<rparr>"
proof -
  from assms(2) have ne: "bps \<noteq> []" by auto
  show "createOptimizedPicture pf source a eager (Some bps) =
     Inr \<lparr>children =
            map (\<lambda>br. Source (media_attr br) (Some ''image/webp'') (with_width u br)) bps
            @ map (\<lambda>br. Source (media_attr br) None (with_width u br)) (butlast bps)
            @ [Img (loading_attr eager) (toStr (default_alt a)) (with_width u (last bps))],
          classList = [], smartcrop_status = None\<rparr>"
    by (rule createOptimizedPicture_children[OF assms(1) default_breakpoints_simps(2) ne])
  show "createOptimizedPicture_opts pf source a eager (Some bps) fmt =
     Inr \<lparr>children =
            map (\<lambda>br. Source (media_attr br) (Some (''image/'' @ default_format fmt)) (with_width u br)) bps
            @ map (\<lambda>br. Source (media_attr br) None (with_width u br)) (butlast bps)
            @ [Img (loading_attr eager) (toStr (default_alt a)) (with_width u (last bps))],
          classList = [], smartcrop_status = None\<rparr>"
    by (rule createOptimizedPicture_opts_children[OF assms(1) default_breakpoints_simps(2) ne])
qed

lemma createOptimizedPicture_counts:
  assumes "new_URL pf source = Inr u" and "length bps \<ge> 1"
  shows "\<exists>pic pic'. createOptimizedPicture pf source a eager (Some bps) = Inr pic \<and>
     createOptimizedPicture_opts pf source a eager (Some bps) fmt = Inr pic' \<and>
     length (filter is_negotiated_source (children pic)) = length bps \<and>
     length (filter is_fallback_source (children pic)) = length bps - 1 \<and>
     length (filter is_img (children pic)) = 1 \<and>
     last (children pic) = Img (loading_attr eager) (toStr (default_alt a)) (with_width u (last bps)) \<and>
     length (filter is_negotiated_source (children pic')) = length bps \<and>
     length (filter is_fallback_source (children pic')) = length bps - 1 \<and>
     length (filter is_img (children pic')) = 1 \<and>
     last (children pic') = Img (loading_attr eager) (toStr (default_alt a)) (with_width u (last bps))"
proof -
  have kinds:
    "filter is_negotiated_source (map (\<lambda>br. Source (m br) (Some (t br)) (v br)) xs) =
       map (\<lambda>br. Source (m br) (Some (t br)) (v br)) xs"
    "filter is_negotiated_source (map (\<lambda>br. Source (m br) None (v br)) xs) = []"
    "filter is_fallback_source (map (\<lambda>br. Source (m br) (Some (t br)) (v br)) xs) = []"
    "filter is_fallback_source (map (\<lambda>br. Source (m br) None (v br)) xs) =
       map (\<lambda>br. Source (m br) None (v br)) xs"
    "filter is_img (map (\<lambda>br. Source (m br) (w br) (v br)) xs) = []"
    for m :: "breakpoint \<Rightarrow> string option" and t :: "breakpoint \<Rightarrow> string"
      and w :: "breakpoint \<Rightarrow> string option" and v xs
    by (induction xs) (simp_all add: is_negotiated_source_def is_fallback_source_def is_img_def)
  have img: "\<not> is_negotiated_source (Img l b v)" "\<not> is_fallback_source (Img l b v)" "is_img (Img l b v)"
    for l b v
    by (simp_all add: is_negotiated_source_def is_fallback_source_def is_img_def)
  show ?thesis
    by (simp add: createOptimizedPicture_of_breakpoints[OF assms] kinds img)
qed

lemma three_breakpoints_counts:
  "\<exists>pic. createOptimizedPicture example_platform ''https://cdn/img.jpg'' Undefined False
       (Some [\<lparr>media = Some ''(min-width: 900px)'', width = Some ''2000'', smartcrop = None\<rparr>,
              \<lparr>media = Some ''(min-width: 600px)'', width = Some ''1200'', smartcrop = None\<rparr>,
              \<lparr>media = None, width = Some ''750'', smartcrop = None\<rparr>]) = Inr pic \<and>
     length (filter is_negotiated_source (children pic)) = 3 \<and>
     length (filter is_fallback_source (children pic)) = 2 \<and>
     length (filter is_img (children pic)) = 1"
proof -
  let ?bps = "[\<lparr>media = Some ''(min-width: 900px)'', width = Some ''2000'', smartcrop = None\<rparr>,
              \<lparr>media = Some ''(min-width: 600px)'', width = Some ''1200'', smartcrop = None\<rparr>,
              \<lparr>media = None, width = Some ''750'', smartcrop = None\<rparr>]"
  have len: "length ?bps \<ge> 1" by simp
  from createOptimizedPicture_counts[OF example_new_URL(1) len, of Undefined False None]
  show ?thesis by auto
qed

text \<open>
  C1. \<^verbatim>\<open>createOptimizedPicture\<close> builds \<^verbatim>\<open>{ width, format }\<close> for every source, but
  \<^verbatim>\<open>appendQueryParams\<close> lets through the keys of its allow-list only, and \<^verbatim>\<open>format\<close> is
  not among them. For \<^verbatim>\<open>https://cdn/img.jpg\<close> and three breakpoints of the caller, no
  \<^verbatim>\<open>srcset\<close> and no \<^verbatim>\<open>src\<close> of the picture has a \<^verbatim>\<open>format\<close> parameter: the typed
  source and the fallback source of a breakpoint have the same URL, with the width alone.
  The options copy, asked for \<^verbatim>\<open>avif\<close>, writes the type \<^verbatim>\<open>image/avif\<close> and the same
  URLs.
\<close>

theorem createOptimizedPicture_format_dropped:
  "createOptimizedPicture example_platform ''https://cdn/img.jpg'' (JString ''cat'') False
     (Some [\<lparr>media = Some ''(min-width: 900px)'', width = Some ''2000'', smartcrop = None\<rparr>,
            \<lparr>media = Some ''(min-width: 600px)'', width = Some ''1200'', smartcrop = None\<rparr>,
            \<lparr>media = None, width = Some ''750'', smartcrop = None\<rparr>]) =
     Inr \<lparr>children =
           [Source (Some ''(min-width: 900px)'') (Some ''image/webp'') (cdn_img [(''width'', ''2000'')]),
            Source (Some ''(min-width: 600px)'') (Some ''image/webp'') (cdn_img [(''width'', ''1200'')]),
            Source None (Some ''image/webp'') (cdn_img [(''width'', ''750'')]),
            Source (Some ''(min-width: 900px)'') None (cdn_img [(''width'', ''2000'')]),
            Source (Some ''(min-width: 600px)'') None (cdn_img [(''width'', ''1200'')]),
            Img ''lazy'' ''cat'' (cdn_img [(''width'', ''750'')])],
          classList = [], smartcrop_status = None\<rparr> \<and>
   createOptimizedPicture_opts example_platform ''https://cdn/img.jpg'' (JString ''cat'') False
     (Some [\<lparr>media = Some ''(min-width: 900px)'', width = Some ''2000'', smartcrop = None\<rparr>,
            \<lparr>media = Some ''(min-width: 600px)'', width = Some ''1200'', smartcrop = None\<rparr>,
            \<lparr>media = None, width = Some ''750'', smartcrop = None\<rparr>]) (Some ''avif'') =
     Inr \<lparr>children =
           [Source (Some ''(min-width: 900px)'') (Some ''image/avif'') (cdn_img [(''width'', ''2000'')]),
            Source (Some ''(min-width: 600px)'') (Some ''image/avif'') (cdn_img [(''width'', ''1200'')]),
            Source None (Some ''image/avif'') (cdn_img [(''width'', ''750'')]),
            Source (Some ''(min-width: 900px)'') None (cdn_img [(''width'', ''2000'')]),
            Source (Some ''(min-width: 600px)'') None (cdn_img [(''width'', ''1200'')]),
            Img ''lazy'' ''cat'' (cdn_img [(''width'', ''750'')])],
          classList = [], smartcrop_status = None\<rparr> \<and>
   sp_has ''width'' (searchParams (cdn_img [(''width'', ''2000'')])) \<and>
   \<not> sp_has ''format'' (searchParams (cdn_img [(''width'', ''2000'')])) \<and>
   \<not> sp_has ''format'' (searchParams (cdn_img [(''width'', ''1200'')])) \<and>
   \<not> sp_has ''format'' (searchParams (cdn_img [(''width'', ''750'')]))"
  by code_simp

text \<open>
  C4. \<^verbatim>\<open>createOptimizedPicture\<close> starts with \<^verbatim>\<open>new URL(src)\<close>, without a base. On a
  source that is a path, such as \<^verbatim>\<open>/media/img.jpg\<close>, this throws a \<^verbatim>\<open>TypeError\<close> in
  both copies of the module and on every platform, whatever the breakpoints: no picture is
  returned, with no source and no image. On the absolute \<^verbatim>\<open>https://cdn/img.jpg\<close> the same
  call with three breakpoints of the caller returns three sources with a type, two without
  and one image, the last child, with the width of the last breakpoint.
\<close>

theorem createOptimizedPicture_relative_src_throws:
  "createOptimizedPicture pf ''/media/img.jpg'' a eager (Some bps) = Inl TypeError \<and>
   createOptimizedPicture_opts pf ''/media/img.jpg'' a eager (Some bps) fmt = Inl TypeError \<and>
   (case createOptimizedPicture example_platform ''https://cdn/img.jpg'' Undefined False
           (Some [\<lparr>media = Some ''(min-width: 900px)'', width = Some ''2000'', smartcrop = None\<rparr>,
                  \<lparr>media = Some ''(min-width: 600px)'', width = Some ''1200'', smartcrop = None\<rparr>,
                  \<lparr>media = None, width = Some ''750'', smartcrop = None\<rparr>]) of
      Inl e \<Rightarrow> False
    | Inr pic \<Rightarrow>
        length (filter is_negotiated_source (children pic)) = 3 \<and>
        length (filter is_fallback_source (children pic)) = 2 \<and>
        length (filter is_img (children pic)) = 1 \<and>
        last (children pic) = Img ''lazy'' [] (cdn_img [(''width'', ''750'')]))"
proof -
  have "\<not> has_scheme ''/media/img.jpg''" by code_simp
  then have "new_URL pf ''/media/img.jpg'' = Inl TypeError" by (simp add: new_URL_def)
  then have "createOptimizedPicture pf ''/media/img.jpg'' a eager (Some bps) = Inl TypeError"
    and "createOptimizedPicture_opts pf ''/media/img.jpg'' a eager (Some bps) fmt = Inl TypeError"
    by (simp_all add: createOptimizedPicture_def createOptimizedPicture_opts_def)
  moreover have "case createOptimizedPicture example_platform ''https://cdn/img.jpg'' Undefined False
           (Some [\<lparr>media = Some ''(min-width: 900px)'', width = Some ''2000'', smartcrop = None\<rparr>,
                  \<lparr>media = Some ''(min-width: 600px)'', width = Some ''1200'', smartcrop = None\<rparr>,
                  \<lparr>media = None, width = Some ''750'', smartcrop = None\<rparr>]) of
      Inl e \<Rightarrow> False
    | Inr pic \<Rightarrow>
        length (filter is_negotiated_source (children pic)) = 3 \<and>
        length (filter is_fallback_source (children pic)) = 2 \<and>
        length (filter is_img (children pic)) = 1 \<and>
        last (children pic) = Img ''lazy'' [] (cdn_img [(''width'', ''750'')])"
    by code_simp
  ultimately show ?thesis by simp
qed

text \<open>The smart-crop creator of the same module resolves such a source against the
  location of the page and returns its picture.\<close>

lemma smartcrop_creator_resolves_relative_src:
  "createOptimizedPictureWithSmartcrop example_platform (example_hlx :: unit hlx) ''/media/img.jpg''
     Undefined False [] =
   Inr \<lparr>children =
         [Source (Some ''(min-width: 1200px) and (max-width: 1600px)'') (Some ''image/webp'')
            \<lparr>origin = ''https://site'', pathname = ''/media/img.jpg'',
              searchParams = [(''smartcrop'', ''Large'')], hash = []\<rparr>,
          Source (Some ''(min-width: 1200px) and (max-width: 1600px)'') None
            \<lparr>origin = ''https://site'', pathname = ''/media/img.jpg'',
              searchParams = [(''smartcrop'', ''Large'')], hash = []\<rparr>,
          Img ''lazy'' []
            \<lparr>origin = ''https://site'', pathname = ''/media/img.jpg'', searchParams = [], hash = []\<rparr>],
        classList = [''smartcrop''], smartcrop_status = None\<rparr>"
  by code_simp

section \<open>The two copies of the module\<close>

lemma createOptimizedPicture_same:
  "createOptimizedPicture pf source a eager breakpoints =
   createOptimizedPicture_opts pf source a eager breakpoints None"
  "createOptimizedPicture pf source a eager breakpoints =
   createOptimizedPicture_opts pf source a eager breakpoints (Some ''webp'')"
proof -
  have loops: "webp_loop bps st = format_loop ''webp'' bps st" for bps st
  proof (induction bps arbitrary: st)
    case Nil show ?case by simp
  next
    case (Cons br brs)
    obtain kids u where st: "st = (kids, u)" by (cases st)
    show ?case by (simp add: st Cons.IH append_width_format Let_def)
  qed
  show "createOptimizedPicture pf source a eager breakpoints =
   createOptimizedPicture_opts pf source a eager breakpoints None"
    by (simp add: createOptimizedPicture_def createOptimizedPicture_opts_def loops default_format_def Let_def
        split: sum.splits)
  show "createOptimizedPicture pf source a eager breakpoints =
   createOptimizedPicture_opts pf source a eager breakpoints (Some ''webp'')"
    by (simp add: createOptimizedPicture_def createOptimizedPicture_opts_def loops default_format_def Let_def
        split: sum.splits)
qed

lemma match_prefix_same:
  "paired_prefixes xs ys \<Longrightarrow> (match_prefix u xs = None) = (match_prefix_opts u ys = None)"
  unfolding paired_prefixes_def
  by (induction xs ys rule: list_all2_induct) (auto split: prefix_item.splits)

lemma isExternal_same:
  assumes "paired_prefixes (externalImageUrlPrefixes cfg) (externalImageUrlPrefixes cfg')"
  shows "fst (isExternalImage pf cfg element m) = fst (isExternalImage_opts cfg' element m)"
proof -
  note mp = match_prefix_same[OF assms]
  show ?thesis
    using mp[of "the (getImageSrcUrl element)"]
    by (auto simp: isExternalImage_def isExternalImage_opts_def Let_def hasImageExtension_def
        str_truthy_def split: option.splits)
qed




lemma smartcrop_allowed: "''smartcrop'' \<in> set allowedParams"
  by (simp add: allowedParams_def)

lemma append_smartcrop_format:
  "appendQueryParams u [(''smartcrop'', s), (''format'', f)] = appendQueryParams u [(''smartcrop'', s)]"
  by (simp add: appendQueryParams_def width_allowed smartcrop_allowed)

lemma with_crop_absorb: "with_crop (with_crop u b) br = with_crop u br"
  by (simp add: with_crop_def appendQueryParams_def smartcrop_allowed sp_set_sp_set)

lemma crop_loop_eq:
  "crop_loop ty fmt bps (kids, u) =
     (kids @ map (\<lambda>br. Source (media_attr br) ty (with_crop u br)) bps,
      if bps = [] then u else with_crop u (last bps))"
proof (induction bps arbitrary: kids u)
  case Nil then show ?case by simp
next
  case (Cons br brs)
  show ?case
    by (simp add: Cons.IH append_smartcrop_format with_crop_absorb with_crop_def[symmetric] Let_def)
qed

lemma sp_delete_sp_set: "sp_delete k (sp_set k v ps) = sp_delete k ps"
  by (induction ps) (auto simp: sp_delete_def)

lemma without_crop:
  "(with_crop u br)\<lparr>searchParams := sp_delete ''smartcrop'' (searchParams (with_crop u br))\<rparr> =
   u\<lparr>searchParams := sp_delete ''smartcrop'' (searchParams u)\<rparr>"
  by (simp add: with_crop_def appendQueryParams_def smartcrop_allowed sp_delete_sp_set)

lemma smartcrop_picture_children:
  assumes "smartcrop_breakpoints cfg breakpoints = Inr bps" and "resolve_URL pf source = Inr u"
  shows "smartcrop_picture pf cfg ty fmt source a eager breakpoints =
     Inr \<lparr>children =
            map (\<lambda>br. Source (media_attr br) (Some ty) (with_crop u br)) bps
            @ map (\<lambda>br. Source (media_attr br) None (with_crop u br)) bps
            @ [Img (loading_attr eager) (toStr (default_alt a))
                 (u\<lparr>searchParams := sp_delete ''smartcrop'' (searchParams u)\<rparr>)],
          classList = [''smartcrop''], smartcrop_status = None\<rparr>"
  using assms
  by (simp add: smartcrop_picture_def Let_def crop_loop_eq with_crop_absorb without_crop)

lemma smartcrop_breakpoints_same:
  "smartCrops cfg = smartCrops cfg' \<Longrightarrow>
   smartcrop_breakpoints cfg breakpoints = smartcrop_breakpoints cfg' breakpoints"
  by (simp add: smartcrop_breakpoints_def)

lemma smartcrop_picture_same:
  assumes "smartCrops cfg = smartCrops cfg'"
  shows "smartcrop_picture pf cfg ty fmt source a eager breakpoints =
         smartcrop_picture pf cfg' ty fmt' source a eager breakpoints"
proof (cases "smartcrop_breakpoints cfg breakpoints")
  case (Inl e)
  then show ?thesis
    using smartcrop_breakpoints_same[OF assms, of breakpoints] by (simp add: smartcrop_picture_def)
next
  case (Inr bps)
  note bps = this
  then have bps': "smartcrop_breakpoints cfg' breakpoints = Inr bps"
    using smartcrop_breakpoints_same[OF assms, of breakpoints] by simp
  show ?thesis
  proof (cases "resolve_URL pf source")
    case (Inl e)
    then show ?thesis using bps bps' by (simp add: smartcrop_picture_def)
  next
    case (Inr u)
    show ?thesis
      by (simp add: smartcrop_picture_children[OF bps Inr] smartcrop_picture_children[OF bps' Inr])
  qed
qed

lemma createOptimizedPictureWithSmartcrop_same:
  assumes "smartCrops cfg = smartCrops cfg'"
  shows "createOptimizedPictureWithSmartcrop pf cfg source a eager breakpoints =
         createOptimizedPictureWithSmartcrop_opts pf cfg' source a eager breakpoints None"
    and "createOptimizedPictureWithSmartcrop pf cfg source a eager breakpoints =
         createOptimizedPictureWithSmartcrop_opts pf cfg' source a eager breakpoints (Some ''webp'')"
  using smartcrop_picture_same[OF assms, of pf "''image/webp''" "''webply''" source a eager breakpoints "''webp''"]
  by (simp_all add: createOptimizedPictureWithSmartcrop_def createOptimizedPictureWithSmartcrop_opts_def
      default_format_def)

lemma match_prefix_plain:
  "plain_pairs xs ys \<Longrightarrow>
   (match_prefix u xs = None \<and> match_prefix_opts u ys = None) \<or>
   (match_prefix u xs = Some None \<and> match_prefix_opts u ys = Some None)"
  unfolding plain_pairs_def
  by (induction xs ys rule: list_all2_induct) (auto split: prefix_item.splits option.splits)

lemma plain_pairs_paired: "plain_pairs xs ys \<Longrightarrow> paired_prefixes xs ys"
  unfolding plain_pairs_def paired_prefixes_def
  by (induction xs ys rule: list_all2_induct) (auto split: prefix_item.splits option.splits)

lemma decorateExternalImage_same:
  assumes pp: "plain_pairs (externalImageUrlPrefixes cfg) (externalImageUrlPrefixes cfg')"
    and sc: "smartCrops cfg = smartCrops cfg'"
    and tag: "tagName element \<noteq> ''A''"
  shows "decorateExternalImage pf cfg m element = decorateExternalImage_opts pf cfg' m element"
proof (cases "tagName element = ''IMG'' \<and> \<not> closest_picture element \<and> str_truthy (getImageSrcUrl element)")
  case False
  with tag have "isExternalImage pf cfg element m = (False, None)"
    "isExternalImage_opts cfg' element m = (False, None)"
    by (auto simp: isExternalImage_def isExternalImage_opts_def Let_def)
  then show ?thesis by (simp add: decorateExternalImage_def decorateExternalImage_opts_def)
next
  case True
  then obtain s where s: "getImageSrcUrl element = Some s" and ne: "s \<noteq> []"
    by (cases "getImageSrcUrl element") (auto simp: str_truthy_def)
  from match_prefix_plain[OF pp, of s] show ?thesis
  proof
    assume "match_prefix s (externalImageUrlPrefixes cfg) = None \<and>
            match_prefix_opts s (externalImageUrlPrefixes cfg') = None"
    with True s have "isExternalImage pf cfg element m = (False, None)"
      "isExternalImage_opts cfg' element m = (False, None)"
      by (auto simp: isExternalImage_def isExternalImage_opts_def Let_def)
    then show ?thesis by (simp add: decorateExternalImage_def decorateExternalImage_opts_def)
  next
    assume "match_prefix s (externalImageUrlPrefixes cfg) = Some None \<and>
            match_prefix_opts s (externalImageUrlPrefixes cfg') = Some None"
    with True s have ext: "isExternalImage pf cfg element m = (hasImageExtension (Some s), None)"
      "isExternalImage_opts cfg' element m = (hasImageExtension (Some s), None)"
      by (auto simp: isExternalImage_def isExternalImage_opts_def Let_def)
    have webp: "imageFormat_or_webp None = Some ''webp''"
      by (simp add: imageFormat_or_webp_def str_truthy_def)
    show ?thesis
      by (simp add: decorateExternalImage_def decorateExternalImage_opts_def ext s webp ne Let_def
          str_truthy_def createOptimizedPicture_same(2)[symmetric]
          createOptimizedPictureWithSmartcrop_same(2)[OF sc, symmetric])
  qed
qed

lemma forEach_replace_cong:
  "(\<And>x. x \<in> set xs \<Longrightarrow> f x = g x) \<Longrightarrow> forEach_replace f xs = forEach_replace g xs"
  by (induction xs) (simp_all split: sum.splits)

lemma decorateExternalImages_same:
  assumes "plain_pairs (externalImageUrlPrefixes cfg) (externalImageUrlPrefixes cfg')"
    and "smartCrops cfg = smartCrops cfg'"
    and "\<forall>e \<in> set extImages. tagName e \<noteq> ''A''"
  shows "decorateExternalImages pf cfg extImages m = decorateExternalImages_opts pf cfg' extImages m"
  unfolding decorateExternalImages_def decorateExternalImages_opts_def
  using assms by (intro forEach_replace_cong decorateExternalImage_same) auto

lemma example_img_positional:
  "decorateExternalImages example_platform
     (example_hlx\<lparr>externalImageUrlPrefixes := [Tuple2 ''https://cdn/'' None]\<rparr>)
     [standalone_img ''https://other/img.jpg'', standalone_img ''https://cdn/img.jpg''] None =
   ([None,
     Some \<lparr>children =
           [Source (Some ''(min-width: 600px)'') (Some ''image/webp'') (cdn_img [(''width'', ''2000'')]),
            Source None (Some ''image/webp'') (cdn_img [(''width'', ''750'')]),
            Source (Some ''(min-width: 600px)'') None (cdn_img [(''width'', ''2000'')]),
            Img ''lazy'' [] (cdn_img [(''width'', ''750'')])],
          classList = [], smartcrop_status = None\<rparr>], None)"
  by code_simp

text \<open>
  C5. What the two copies of the module share. \<^verbatim>\<open>createOptimizedPicture\<close> returns the
  same picture, or throws the same error, for the same source, alt text, eagerness and
  breakpoints, when the options copy is given no image format or \<^verbatim>\<open>webp\<close>. The two
  \<^verbatim>\<open>isExternalImage\<close> give the same \<^verbatim>\<open>isExternal\<close> for the same element and marker
  when the configurations list the same prefixes, each as a pair. The two
  \<^verbatim>\<open>decorateExternalImages\<close> do the same to the same elements, none of them a link, when
  the configurations list the same prefixes, each paired with nothing, and have the same
  crop table: the same elements are replaced, by the same pictures, and the same error, if
  any, ends the pass at the same element.
\<close>

theorem copies_agree:
  "createOptimizedPicture pf source a eager breakpoints =
     createOptimizedPicture_opts pf source a eager breakpoints None \<and>
   createOptimizedPicture pf source a eager breakpoints =
     createOptimizedPicture_opts pf source a eager breakpoints (Some ''webp'') \<and>
   (paired_prefixes (externalImageUrlPrefixes cfg) (externalImageUrlPrefixes cfg') \<longrightarrow>
      fst (isExternalImage pf cfg element m) = fst (isExternalImage_opts cfg' element m)) \<and>
   (plain_pairs (externalImageUrlPrefixes cfg) (externalImageUrlPrefixes cfg') \<and>
    smartCrops cfg = smartCrops cfg' \<and> (\<forall>e \<in> set extImages. tagName e \<noteq> ''A'') \<longrightarrow>
      decorateExternalImages pf cfg extImages m = decorateExternalImages_opts pf cfg' extImages m)"
  using createOptimizedPicture_same[of pf source a eager breakpoints]
    isExternal_same[of cfg cfg' pf element m]
    decorateExternalImages_same[of cfg cfg' extImages pf m]
  by simp

text \<open>An instance: a standalone image under a prefix that both configurations pair with
  nothing, after an image of another site. Both copies classify the first as external, and
  both passes leave the image of the other site and replace the first by the same
  picture.\<close>

theorem copies_agree_example:
  "createOptimizedPicture example_platform ''https://cdn/img.jpg'' (JString ''cat'') True None =
     createOptimizedPicture_opts example_platform ''https://cdn/img.jpg'' (JString ''cat'') True None None \<and>
   fst (isExternalImage example_platform
          (example_hlx\<lparr>externalImageUrlPrefixes := [Tuple2 ''https://cdn/'' None]\<rparr>)
          (standalone_img ''https://cdn/img.jpg'') None) \<and>
   fst (isExternalImage_opts
          (example_hlx\<lparr>externalImageUrlPrefixes := [Tuple2 ''https://cdn/'' None]\<rparr>)
          (standalone_img ''https://cdn/img.jpg'') None) \<and>
   decorateExternalImages_opts example_platform
     (example_hlx\<lparr>externalImageUrlPrefixes := [Tuple2 ''https://cdn/'' None]\<rparr>)
     [standalone_img ''https://other/img.jpg'', standalone_img ''https://cdn/img.jpg''] None =
   ([None,
     Some \<lparr>children =
           [Source (Some ''(min-width: 600px)'') (Some ''image/webp'') (cdn_img [(''width'', ''2000'')]),
            Source None (Some ''image/webp'') (cdn_img [(''width'', ''750'')]),
            Source (Some ''(min-width: 600px)'') None (cdn_img [(''width'', ''2000'')]),
            Img ''lazy'' [] (cdn_img [(''width'', ''750'')])],
          classList = [], smartcrop_status = None\<rparr>], None)"
proof -
  let ?cfg = "example_hlx\<lparr>externalImageUrlPrefixes := [Tuple2 ''https://cdn/'' (None :: handler option)]\<rparr>"
  let ?cfg' = "example_hlx\<lparr>externalImageUrlPrefixes := [Tuple2 ''https://cdn/'' (None :: string option)]\<rparr>"
  let ?xs = "[standalone_img ''https://other/img.jpg'', standalone_img ''https://cdn/img.jpg'']"
  have pl: "plain_pairs (externalImageUrlPrefixes ?cfg) (externalImageUrlPrefixes ?cfg')"
    by (simp add: plain_pairs_def)
  have pp: "paired_prefixes (externalImageUrlPrefixes ?cfg) (externalImageUrlPrefixes ?cfg')"
    by (simp add: paired_prefixes_def)
  have sc: "smartCrops ?cfg = smartCrops ?cfg'"
    by (simp add: example_hlx_def)
  have tag: "\<forall>e \<in> set ?xs. tagName e \<noteq> ''A''"
    by (simp add: standalone_img_def)
  have ext: "fst (isExternalImage_opts ?cfg' (standalone_img ''https://cdn/img.jpg'') None)"
    by code_simp
  from copies_agree[of example_platform "''https://cdn/img.jpg''" "JString ''cat''" True None
      ?cfg ?cfg' "standalone_img ''https://cdn/img.jpg''" None ?xs] pl pp sc tag ext
  show ?thesis by (simp add: example_img_positional)
qed

text \<open>A configuration that lists a prefix as a plain string, the legacy form, and a
  standalone image under that prefix. The positional copy compares pairs only: the image
  is not external and stays in place. The options copy keeps a branch for the legacy form
  (\<^verbatim>\<open>For backward compatibility - if it's just a string\<close>): the image is external and is
  replaced by a picture.\<close>

theorem copies_differ:
  "\<not> fst (isExternalImage example_platform
     (example_hlx\<lparr>externalImageUrlPrefixes := [Other ''https://cdn/'']\<rparr>)
     (standalone_img ''https://cdn/img.jpg'') None) \<and>
   isExternalImage_opts
     (example_hlx\<lparr>externalImageUrlPrefixes := [Other ''https://cdn/'']\<rparr>)
     (standalone_img ''https://cdn/img.jpg'') None = (True, None) \<and>
   decorateExternalImages example_platform
     (example_hlx\<lparr>externalImageUrlPrefixes := [Other ''https://cdn/'']\<rparr>)
     [standalone_img ''https://cdn/img.jpg''] None = ([None], None) \<and>
   decorateExternalImages_opts example_platform
     (example_hlx\<lparr>externalImageUrlPrefixes := [Other ''https://cdn/'']\<rparr>)
     [standalone_img ''https://cdn/img.jpg''] None =
   ([Some \<lparr>children =
           [Source (Some ''(min-width: 600px)'') (Some ''image/webp'') (cdn_img [(''width'', ''2000'')]),
            Source None (Some ''image/webp'') (cdn_img [(''width'', ''750'')]),
            Source (Some ''(min-width: 600px)'') None (cdn_img [(''width'', ''2000'')]),
            Img ''lazy'' [] (cdn_img [(''width'', ''750'')])],
          classList = [], smartcrop_status = None\<rparr>], None)"
  by code_simp

section \<open>Properties of the decoration orchestrator\<close>


















text \<open>The marker link with \<^verbatim>\<open>crop=1,1,10,10\<close> alone, in the options copy: every source
  and image of the picture has the crop.\<close>

lemma marker_link_crop:
  "decorateExternalImage_opts example_platform example_hlx (Some ''//External Image//'')
     (marker_link ''https://cdn/img.jpg?crop=1,1,10,10'' Map.empty) =
   Inr (Some \<lparr>children =
           [Source (Some ''(min-width: 600px)'') (Some ''image/webp'')
              (cdn_img [(''crop'', ''1,1,10,10''), (''width'', ''2000'')]),
            Source None (Some ''image/webp'') (cdn_img [(''crop'', ''1,1,10,10''), (''width'', ''750'')]),
            Source (Some ''(min-width: 600px)'') None
              (cdn_img [(''crop'', ''1,1,10,10''), (''width'', ''2000'')]),
            Img ''lazy'' [] (cdn_img [(''crop'', ''1,1,10,10''), (''width'', ''750'')])],
          classList = [], smartcrop_status = None\<rparr>)"
  by code_simp





section \<open>Properties of the alt-encoded delivery resolver\<close>

lemma forEach_replace_nth:
  "i < length xs \<Longrightarrow> f (xs ! i) = Inr None \<Longrightarrow> fst (forEach_replace f xs) ! i = None"
proof (induction xs arbitrary: i)
  case Nil then show ?case by simp
next
  case (Cons x xs)
  show ?case
  proof (cases i)
    case 0
    with Cons.prems show ?thesis by (simp split: prod.splits)
  next
    case (Suc j)
    with Cons.prems have "fst (forEach_replace f xs) ! j = None" by (intro Cons.IH) auto
    with Suc Cons.prems show ?thesis by (auto split: sum.splits prod.splits)
  qed
qed

lemma forEach_replace_no_error:
  "(\<And>x e. x \<in> set xs \<Longrightarrow> f x \<noteq> Inl e) \<Longrightarrow> snd (forEach_replace f xs) = None"
proof (induction xs)
  case Nil then show ?case by simp
next
  case (Cons x xs)
  then have "snd (forEach_replace f xs) = None" by simp
  moreover obtain r where "f x = Inr r" using Cons.prems[of x] by (cases "f x") auto
  ultimately show ?case by (cases "forEach_replace f xs") simp
qed

lemma forEach_replace_throw:
  assumes "f x = Inl e" and "\<And>y e'. f y = Inl e' \<Longrightarrow> e' = e"
  shows "snd (forEach_replace f (before @ x # after)) = Some e \<and>
         drop (length before) (fst (forEach_replace f (before @ x # after))) =
           map (\<lambda>_. None) (x # after)"
proof (induction before)
  case Nil
  from assms(1) show ?case by simp
next
  case (Cons b bs)
  show ?case
  proof (cases "f b")
    case (Inl e')
    with assms(2) have "e' = e" by simp
    with Inl show ?thesis by simp
  next
    case (Inr r)
    with Cons show ?thesis by (cases "forEach_replace f (bs @ x # after)") simp
  qed
qed

lemma try_catch_no_error: "try_catch body \<noteq> Inl e"
  by (simp add: try_catch_def split: sum.splits)

lemma decorateImageFromAlt_error:
  "decorateImageFromAlt pf cfg p = Inl e \<Longrightarrow> e = TypeError \<and> querySelector_img p = None"
  "decorateImageFromAlt_opts pf cfg p = Inl e \<Longrightarrow> e = TypeError \<and> querySelector_img p = None"
  by (auto simp: decorateImageFromAlt_def decorateImageFromAlt_opts_def try_catch_no_error
      split: option.splits)

lemma not_a_payload_cases:
  assumes "not_a_payload pf a"
  shows "(\<exists>e. delivery_payload pf a = Inl e) \<or> (\<exists>t. delivery_payload pf a = Inr (Undefined, t))"
  using assms
  by (auto simp: not_a_payload_def delivery_payload_def split: sum.splits jsval.splits option.splits)

lemma not_a_payload_untouched:
  assumes "querySelector_img p = Some img" and "not_a_payload pf (img ''alt'')"
  shows "decorateImageFromAlt pf cfg p = Inr None" and "decorateImageFromAlt_opts pf cfg p = Inr None"
  using not_a_payload_cases[OF assms(2)] assms(1)
  by (auto simp: decorateImageFromAlt_def decorateImageFromAlt_opts_def try_catch_def)

lemma plain_text_not_a_payload: "not_a_payload pf (Some ''plain text'')"
  by (simp add: not_a_payload_def decodeURIComponent_def JSON_parse_def json_ws_def
      json_value_start_def)

text \<open>
  C8. A picture whose image has an \<^verbatim>\<open>alt\<close> that does not decode and parse, or parses to
  an object without \<^verbatim>\<open>deliveryUrl\<close>, is not replaced and its callback throws nothing, in
  both copies of the module; in a pass over any list of pictures it is left as it was, and
  the pass ends without an error when every picture of the list has an image. A plain
  text such as \<^verbatim>\<open>plain text\<close> is such an \<^verbatim>\<open>alt\<close> on every platform.
\<close>

theorem alt_without_payload_untouched:
  assumes "i < length ps" and "querySelector_img (ps ! i) = Some img"
    and "not_a_payload pf (img ''alt'')"
  shows "decorateImageFromAlt pf cfg (ps ! i) = Inr None \<and>
         decorateImageFromAlt_opts pf cfg (ps ! i) = Inr None \<and>
         fst (decorateImagesFromAlt pf cfg ps) ! i = None \<and>
         fst (decorateImagesFromAlt_opts pf cfg ps) ! i = None \<and>
         ((\<forall>q \<in> set ps. querySelector_img q \<noteq> None) \<longrightarrow>
            snd (decorateImagesFromAlt pf cfg ps) = None \<and>
            snd (decorateImagesFromAlt_opts pf cfg ps) = None) \<and>
         not_a_payload pf (Some ''plain text'')"
proof -
  note one = not_a_payload_untouched[OF assms(2,3), of cfg]
  have "snd (decorateImagesFromAlt pf cfg ps) = None \<and> snd (decorateImagesFromAlt_opts pf cfg ps) = None"
    if "\<forall>q \<in> set ps. querySelector_img q \<noteq> None"
    unfolding decorateImagesFromAlt_def decorateImagesFromAlt_opts_def
    using that by (intro conjI forEach_replace_no_error) (auto dest!: decorateImageFromAlt_error)
  with one assms(1) show ?thesis
    by (simp add: decorateImagesFromAlt_def decorateImagesFromAlt_opts_def forEach_replace_nth
        plain_text_not_a_payload)
qed

lemma example_alt_pass:
  "decorateImagesFromAlt example_platform (example_hlx :: unit hlx)
     [picture_with_alt ''plain text'', picture_with_alt example_alt] =
   ([None,
     Some \<lparr>children =
       [Source (Some ''(min-width: 600px)'') (Some ''image/jpeg'') (cdn_img [(''width'', ''2000'')]),
        Source None (Some ''image/jpeg'') (cdn_img [(''width'', ''750'')]),
        Source (Some ''(min-width: 600px)'') None (cdn_img [(''width'', ''2000'')]),
        Img ''lazy'' ''cat'' (cdn_img [(''width'', ''750'')])],
       classList = [], smartcrop_status = None\<rparr>], None)"
  by code_simp

text \<open>An instance: a picture with the alt text \<^verbatim>\<open>plain text\<close> stays, the payload after it
  in the list is resolved.\<close>

theorem plain_text_alt_untouched:
  "decorateImageFromAlt example_platform (example_hlx :: unit hlx) (picture_with_alt ''plain text'') = Inr None \<and>
   decorateImageFromAlt_opts example_platform (example_hlx :: unit hlx) (picture_with_alt ''plain text'') = Inr None \<and>
   fst (decorateImagesFromAlt example_platform (example_hlx :: unit hlx)
          [picture_with_alt ''plain text'', picture_with_alt example_alt]) ! 0 = None \<and>
   snd (decorateImagesFromAlt example_platform (example_hlx :: unit hlx)
          [picture_with_alt ''plain text'', picture_with_alt example_alt]) = None \<and>
   fst (decorateImagesFromAlt example_platform (example_hlx :: unit hlx)
          [picture_with_alt ''plain text'', picture_with_alt example_alt]) ! 1 \<noteq> None"
proof -
  let ?ps = "[picture_with_alt ''plain text'', picture_with_alt example_alt]"
  have a: "0 < length ?ps" by simp
  have b: "querySelector_img (?ps ! 0) = Some [''alt'' \<mapsto> ''plain text'']"
    by (simp add: picture_with_alt_def)
  have c: "not_a_payload example_platform ([''alt'' \<mapsto> ''plain text''] ''alt'')"
    by (simp add: plain_text_not_a_payload)
  have d: "\<forall>q \<in> set ?ps. querySelector_img q \<noteq> None" by (simp add: picture_with_alt_def)
  from alt_without_payload_untouched[OF a b c, of "example_hlx :: unit hlx"] d
  show ?thesis by (simp add: example_alt_pass)
qed

text \<open>
  C10. The callback of \<^verbatim>\<open>decorateImagesFromAlt\<close> reads the \<^verbatim>\<open>alt\<close> of the image before
  its \<^verbatim>\<open>try\<close>. On a picture without an image it throws a \<^verbatim>\<open>TypeError\<close>, in both copies
  of the module; the pass over a list that holds such a picture ends with that error, and
  neither that picture nor any picture after it in the list is replaced.
\<close>

theorem picture_without_img_throws:
  assumes "querySelector_img p = None"
  shows "decorateImageFromAlt pf cfg p = Inl TypeError \<and>
         decorateImageFromAlt_opts pf cfg p = Inl TypeError \<and>
         snd (decorateImagesFromAlt pf cfg (before @ p # after)) = Some TypeError \<and>
         drop (length before) (fst (decorateImagesFromAlt pf cfg (before @ p # after))) =
           replicate (Suc (length after)) None \<and>
         snd (decorateImagesFromAlt_opts pf cfg (before @ p # after)) = Some TypeError \<and>
         drop (length before) (fst (decorateImagesFromAlt_opts pf cfg (before @ p # after))) =
           replicate (Suc (length after)) None"
proof -
  have t: "decorateImageFromAlt pf cfg p = Inl TypeError"
    "decorateImageFromAlt_opts pf cfg p = Inl TypeError"
    using assms by (simp_all add: decorateImageFromAlt_def decorateImageFromAlt_opts_def)
  have "\<And>y e'. decorateImageFromAlt pf cfg y = Inl e' \<Longrightarrow> e' = TypeError"
    "\<And>y e'. decorateImageFromAlt_opts pf cfg y = Inl e' \<Longrightarrow> e' = TypeError"
    by (auto dest: decorateImageFromAlt_error)
  from forEach_replace_throw[of "decorateImageFromAlt pf cfg" p TypeError before after, OF t(1) this(1)]
    forEach_replace_throw[of "decorateImageFromAlt_opts pf cfg" p TypeError before after, OF t(2) this(2)] t
  show ?thesis
    by (simp add: decorateImagesFromAlt_def decorateImagesFromAlt_opts_def map_replicate_const)
qed

lemma example_alt_alone:
  "decorateImagesFromAlt example_platform (example_hlx :: unit hlx) [picture_with_alt example_alt] =
   ([Some \<lparr>children =
       [Source (Some ''(min-width: 600px)'') (Some ''image/jpeg'') (cdn_img [(''width'', ''2000'')]),
        Source None (Some ''image/jpeg'') (cdn_img [(''width'', ''750'')]),
        Source (Some ''(min-width: 600px)'') None (cdn_img [(''width'', ''2000'')]),
        Img ''lazy'' ''cat'' (cdn_img [(''width'', ''750'')])],
       classList = [], smartcrop_status = None\<rparr>], None)"
  by code_simp

text \<open>An instance: the payload that is replaced when it is alone is not when a picture
  without an image stands before it.\<close>

theorem picture_without_img_example:
  "decorateImagesFromAlt example_platform (example_hlx :: unit hlx)
     [picture_with_alt ''plain text'', picture_without_img, picture_with_alt example_alt] =
     ([None, None, None], Some TypeError) \<and>
   fst (decorateImagesFromAlt example_platform (example_hlx :: unit hlx) [picture_with_alt example_alt])
     \<noteq> [None]"
proof -
  let ?r = "decorateImagesFromAlt example_platform (example_hlx :: unit hlx)
     [picture_with_alt ''plain text'', picture_without_img, picture_with_alt example_alt]"
  have np: "querySelector_img picture_without_img = None" by (simp add: picture_without_img_def)
  from picture_without_img_throws[OF np, of example_platform "example_hlx :: unit hlx"
      "[picture_with_alt ''plain text'']" "[picture_with_alt example_alt]"]
  have e: "snd ?r = Some TypeError" and d: "drop 1 (fst ?r) = [None, None]"
    by (simp_all add: numeral_2_eq_2)
  have "length (fst ?r) = 3" by code_simp
  then obtain x y z where xyz: "fst ?r = [x, y, z]"
    by (cases "fst ?r"; simp; rename_tac l, case_tac l; simp; rename_tac l, case_tac l; simp)
  have x: "fst ?r ! 0 = None" by code_simp
  from xyz d x have "fst ?r = [None, None, None]" by simp
  with e have "?r = ([None, None, None], Some TypeError)" by (cases ?r) simp
  then show ?thesis by (simp add: example_alt_alone)
qed

section \<open>Properties of the block loader\<close>

lemma loadBlock_call_gated: "gated b \<Longrightarrow> loadBlock_call cfg decorate b = b"
  by (auto simp: loadBlock_call_def gated_def)

lemma step_gated: "gated b \<Longrightarrow> gated (step cfg decorate e b)"
  by (cases e)
     (auto simp: loadBlock_call_gated gated_def join_def set_css_def set_script_def emit_def
        split: option.splits)

lemma step_loaded:
  "blockStatus b = Some ''loaded'' \<Longrightarrow> blockStatus (step cfg decorate e b) = Some ''loaded''"
  by (cases e)
     (auto simp: loadBlock_call_def join_def set_css_def set_script_def emit_def
        split: option.splits)

lemma run_gated: "gated b \<Longrightarrow> gated (run cfg decorate es b)"
  by (induction es arbitrary: b) (simp_all add: step_gated)

lemma run_loaded:
  "blockStatus b = Some ''loaded'' \<Longrightarrow> blockStatus (run cfg decorate es b) = Some ''loaded''"
  by (induction es arbitrary: b) (simp_all add: step_loaded)

lemmas count_defs = imports_in_def css_loads_in_def count_effect_def

lemma counted_fresh: "fresh b \<Longrightarrow> counted b"
  by (simp add: fresh_def counted_def count_defs)

lemma counted_call: "counted b \<Longrightarrow> counted (loadBlock_call cfg decorate b)"
proof (cases "gated b")
  case True
  assume "counted b" with True show ?thesis by (simp add: loadBlock_call_gated)
next
  case False
  assume c: "counted b"
  from False c have e: "trace b = []" "pending b = None"
    by (auto simp: counted_def split: option.splits if_splits)
  obtain d err where d: "decorate (markup b) = (d, err)" by (cases "decorate (markup b)")
  from False e d show ?thesis
    by (cases err)
       (auto simp: loadBlock_call_def gated_def counted_def emit_def Let_def count_defs
          block_failure_def)
qed

lemma counted_join: "counted b \<Longrightarrow> counted (join b)"
  by (auto simp: counted_def join_def emit_def gated_def count_defs block_failure_def
      split: option.splits)

lemma counted_set_css: "counted b \<Longrightarrow> counted (set_css c b)"
  by (auto simp: counted_def set_css_def gated_def split: option.splits)

lemma counted_settle_script:
  "counted b \<Longrightarrow> x \<noteq> Importing \<Longrightarrow> counted (set_script x b)"
  by (auto simp: counted_def set_script_def gated_def split: option.splits if_splits)

lemma counted_log:
  "counted b \<Longrightarrow> pending b \<noteq> None \<Longrightarrow> counted (emit (module_failure m) b)"
  by (auto simp: counted_def emit_def gated_def count_defs module_failure_def split: option.splits)

lemma counted_invoke:
  "counted b \<Longrightarrow> script_is Importing b \<Longrightarrow> counted (emit InvokeDefault (set_script Running b))"
  by (auto simp: counted_def script_is_def set_script_def emit_def gated_def count_defs
      split: option.splits)

lemma script_is_pending: "script_is x b \<Longrightarrow> pending b \<noteq> None"
  by (auto simp: script_is_def split: option.splits)

lemma counted_step: "counted b \<Longrightarrow> counted (step cfg decorate e b)"
  by (cases e)
     (auto simp: counted_call counted_join counted_set_css counted_settle_script counted_log
        counted_invoke script_is_pending)

lemma counted_run: "counted b \<Longrightarrow> counted (run cfg decorate es b)"
  by (induction es arbitrary: b) (simp_all add: counted_step)

lemma counted_bounds:
  assumes "counted b"
  shows "count_effect Decorate (trace b) \<le> 1" "count_effect InvokeDefault (trace b) \<le> 1"
    "imports_in (trace b) \<le> 1" "css_loads_in (trace b) \<le> 1"
    "trace b = [] \<or> hd (trace b) = SetStatus ''loading''"
  using assms by (auto simp: counted_def split: option.splits if_splits)

lemma call_sets_status_first:
  "\<not> gated b \<Longrightarrow> \<exists>rest. trace (loadBlock_call cfg decorate b) = trace b @ SetStatus ''loading'' # rest"
  by (cases "decorate (markup b)"; cases "snd (decorate (markup b))")
     (auto simp: loadBlock_call_def gated_def emit_def Let_def)

lemma joined_right_call:
  assumes "\<not> gated b" and "decorate (markup b) = (d, None)"
  shows "joined_right (blockName b) (loadBlock_call cfg decorate b)"
  using assms
  by (simp add: loadBlock_call_def gated_def joined_right_def emit_def Let_def)

lemma joined_right_pending: "joined_right name b \<Longrightarrow> \<exists>f. pending b = Some f"
  by (cases "pending b") (simp_all add: joined_right_def)

lemma joined_right_gated: "joined_right name b \<Longrightarrow> gated b"
  by (cases "pending b") (auto simp: joined_right_def gated_def)

lemma joined_right_css:
  assumes "joined_right name b" and "css_is CssPending b" and "c \<noteq> CssPending"
  shows "joined_right name (join (set_css c b))"
proof -
  from joined_right_pending[OF assms(1)] obtain f where f: "pending b = Some f" by blast
  with assms(2) have p: "css f = CssPending" by (simp add: css_is_def)
  with assms(1) f have nj: "\<not> joined f" by (simp add: joined_right_def)
  from assms(1,3) f p nj show ?thesis
    by (cases c; cases "script f")
       (simp_all add: joined_right_def join_def set_css_def emit_def)
qed

lemma joined_right_invoke:
  assumes "joined_right name b" and "script_is Importing b"
  shows "joined_right name (emit InvokeDefault (set_script Running b))"
proof -
  from joined_right_pending[OF assms(1)] obtain f where f: "pending b = Some f" by blast
  with assms(2) have p: "script f = Importing" by (simp add: script_is_def)
  from assms(1) f p show ?thesis
    by (cases "css f") (simp_all add: joined_right_def set_script_def emit_def)
qed

lemma joined_right_script:
  assumes "joined_right name b" and "script_is Importing b \<or> script_is Running b"
    and "x = ScriptDone \<or> x = ScriptFailed \<and> module_failure name \<in> set (trace b)"
  shows "joined_right name (join (set_script x b))"
proof -
  from joined_right_pending[OF assms(1)] obtain f where f: "pending b = Some f" by blast
  with assms(2) have p: "script f = Importing \<or> script f = Running" by (simp add: script_is_def)
  from assms(1,3) f p show ?thesis
    by (cases "css f"; cases "joined f"; cases x)
       (auto simp: joined_right_def join_def set_script_def emit_def)
qed

lemma joined_right_log:
  assumes "joined_right name b"
  shows "joined_right name (emit (module_failure name) b)"
    and "module_failure name \<in> set (trace (emit (module_failure name) b))"
    and "script_is x (emit (module_failure name) b) = script_is x b"
proof -
  from joined_right_pending[OF assms(1)] obtain f where f: "pending b = Some f" by blast
  from assms f show "joined_right name (emit (module_failure name) b)"
    by (simp add: joined_right_def emit_def)
qed (simp_all add: emit_def script_is_def)

lemma joined_right_name: "joined_right name b \<Longrightarrow> blockName b = name"
  by (simp add: joined_right_def)

lemma joined_right_step:
  assumes "joined_right name b"
  shows "joined_right name (step cfg decorate e b)"
proof (cases e)
  case Call
  with assms show ?thesis by (simp add: loadBlock_call_gated joined_right_gated)
next
  case CssOnload
  with assms show ?thesis by (simp add: joined_right_css)
next
  case CssOnerror
  with assms show ?thesis by (simp add: joined_right_css)
next
  case (ImportResolved has_default)
  with assms show ?thesis by (simp add: joined_right_invoke joined_right_script)
next
  case ImportRejected
  have "joined_right name (join (set_script ScriptFailed (emit (module_failure name) b)))"
    if "script_is Importing b"
    using that joined_right_log[OF assms] by (intro joined_right_script) simp_all
  with assms ImportRejected show ?thesis by (simp add: joined_right_name)
next
  case DefaultReturned
  with assms show ?thesis by (simp add: joined_right_script)
next
  case DefaultThrew
  have "joined_right name (join (set_script ScriptFailed (emit (module_failure name) b)))"
    if "script_is Running b"
    using that joined_right_log[OF assms] by (intro joined_right_script) simp_all
  with assms DefaultThrew show ?thesis by (simp add: joined_right_name)
qed

lemma joined_right_run: "joined_right name b \<Longrightarrow> joined_right name (run cfg decorate es b)"
  by (induction es arbitrary: b) (simp_all add: joined_right_step)

lemma joined_right_facts:
  assumes "joined_right name b"
  shows "(blockStatus b = Some ''loaded'') =
           (css_is CssFailed b \<or> (css_is CssLoaded b \<and> script_settled b))"
    and "blockStatus b = Some ''loaded'' \<or> blockStatus b = Some ''loading''"
    and "css_is CssFailed b \<longrightarrow> block_failure name \<in> set (trace b)"
    and "script_is ScriptFailed b \<longrightarrow> module_failure name \<in> set (trace b)"
    and "css_settled b \<and> script_settled b \<longrightarrow> blockStatus b = Some ''loaded''"
proof -
  from joined_right_pending[OF assms(1)] obtain f where f: "pending b = Some f" by blast
  from assms f show "(blockStatus b = Some ''loaded'') =
           (css_is CssFailed b \<or> (css_is CssLoaded b \<and> script_settled b))"
    and "blockStatus b = Some ''loaded'' \<or> blockStatus b = Some ''loading''"
    and "css_is CssFailed b \<longrightarrow> block_failure name \<in> set (trace b)"
    and "script_is ScriptFailed b \<longrightarrow> module_failure name \<in> set (trace b)"
    and "css_settled b \<and> script_settled b \<longrightarrow> blockStatus b = Some ''loaded''"
    by (auto simp: joined_right_def css_is_def script_is_def css_settled_def script_settled_def)
qed

text \<open>
  C6. A call of \<^verbatim>\<open>loadBlock\<close> on a block whose status is \<^verbatim>\<open>loading\<close> or
  \<^verbatim>\<open>loaded\<close> returns the block as it is: no decoration, no stylesheet request, no
  import. A call on any other block sets the status to \<^verbatim>\<open>loading\<close> before anything
  else. Whatever the page does afterwards, in any order and with any number of callers, a
  status that is \<^verbatim>\<open>loading\<close> or \<^verbatim>\<open>loaded\<close> stays one of the two, \<^verbatim>\<open>loaded\<close> stays
  \<^verbatim>\<open>loaded\<close>, and on a block that starts without a load there is at most one
  decoration pass, one stylesheet request, one import and one invocation of the default
  export, all after the status was set.
\<close>

theorem loadBlock_status_gate:
  "(gated b \<longrightarrow> loadBlock_call cfg decorate b = b) \<and>
   (\<not> gated b \<longrightarrow>
      (\<exists>rest. trace (loadBlock_call cfg decorate b) = trace b @ SetStatus ''loading'' # rest)) \<and>
   (gated b \<longrightarrow> gated (run cfg decorate es b)) \<and>
   (blockStatus b = Some ''loaded'' \<longrightarrow> blockStatus (run cfg decorate es b) = Some ''loaded'') \<and>
   (fresh b \<longrightarrow>
      count_effect Decorate (trace (run cfg decorate es b)) \<le> 1 \<and>
      count_effect InvokeDefault (trace (run cfg decorate es b)) \<le> 1 \<and>
      imports_in (trace (run cfg decorate es b)) \<le> 1 \<and>
      css_loads_in (trace (run cfg decorate es b)) \<le> 1 \<and>
      (trace (run cfg decorate es b) = [] \<or>
       hd (trace (run cfg decorate es b)) = SetStatus ''loading''))"
  using counted_bounds[OF counted_run[OF counted_fresh], of b cfg decorate es]
  by (simp add: loadBlock_call_gated call_sets_status_first run_gated run_loaded)

lemma example_two_callers:
  "run (example_hlx :: unit hlx) no_decoration
     [Call, Call, CssOnload, ImportResolved True, Call, DefaultReturned, Call] example_block =
   \<lparr>blockStatus = Some ''loaded'', blockName = ''hero'', markup = (),
    head_links = [''/blocks/hero/hero.css''],
    trace = [SetStatus ''loading'', Decorate, LoadCSS ''/blocks/hero/hero.css'',
             AppendLink ''/blocks/hero/hero.css'', Import ''/blocks/hero/hero.js'',
             InvokeDefault, SetStatus ''loaded''],
    pending = Some \<lparr>css = CssLoaded, script = ScriptDone, joined = True\<rparr>\<rparr>"
  by code_simp

text \<open>An instance with four callers around one load, and the status check on a block that is
  loading and on one that is loaded.\<close>

theorem loadBlock_two_callers:
  "count_effect Decorate (trace (run (example_hlx :: unit hlx) no_decoration
     [Call, Call, CssOnload, ImportResolved True, Call, DefaultReturned, Call] example_block)) = 1 \<and>
   count_effect InvokeDefault (trace (run (example_hlx :: unit hlx) no_decoration
     [Call, Call, CssOnload, ImportResolved True, Call, DefaultReturned, Call] example_block)) = 1 \<and>
   blockStatus (run (example_hlx :: unit hlx) no_decoration
     [Call, Call, CssOnload, ImportResolved True, Call, DefaultReturned, Call] example_block) = Some ''loaded'' \<and>
   loadBlock_call (example_hlx :: unit hlx) no_decoration
     (run (example_hlx :: unit hlx) no_decoration [Call] example_block) =
     run (example_hlx :: unit hlx) no_decoration [Call] example_block \<and>
   blockStatus (run (example_hlx :: unit hlx) no_decoration [Call] example_block) = Some ''loading'' \<and>
   hd (trace (loadBlock_call (example_hlx :: unit hlx) no_decoration example_block)) = SetStatus ''loading'' \<and>
   gated (run (example_hlx :: unit hlx) no_decoration [CssOnerror, Call, ImportRejected]
     (run (example_hlx :: unit hlx) no_decoration [Call] example_block)) \<and>
   blockStatus (run (example_hlx :: unit hlx) no_decoration [Call, CssOnerror, ImportRejected]
     (run (example_hlx :: unit hlx) no_decoration
        [Call, Call, CssOnload, ImportResolved True, Call, DefaultReturned, Call] example_block)) =
     Some ''loaded''"
proof -
  define r where "r = run (example_hlx :: unit hlx) no_decoration
     [Call, Call, CssOnload, ImportResolved True, Call, DefaultReturned, Call] example_block"
  define b1 where "b1 = run (example_hlx :: unit hlx) no_decoration [Call] example_block"
  have f: "fresh example_block" by (simp add: fresh_def example_block_def)
  have ng: "\<not> gated example_block" by (simp add: gated_def example_block_def)
  have t0: "trace example_block = []" by (simp add: example_block_def)
  have s1: "blockStatus b1 = Some ''loading''" unfolding b1_def by code_simp
  then have g: "gated b1" by (simp add: gated_def)
  have tr: "trace r = [SetStatus ''loading'', Decorate, LoadCSS ''/blocks/hero/hero.css'',
             AppendLink ''/blocks/hero/hero.css'', Import ''/blocks/hero/hero.js'',
             InvokeDefault, SetStatus ''loaded'']"
    and st: "blockStatus r = Some ''loaded''"
    unfolding r_def example_two_callers by simp_all
  from loadBlock_status_gate[of example_block "example_hlx :: unit hlx" no_decoration
      "[Call, Call, CssOnload, ImportResolved True, Call, DefaultReturned, Call]"] f
  have le: "count_effect Decorate (trace r) \<le> 1" "count_effect InvokeDefault (trace r) \<le> 1"
    unfolding r_def by blast+
  have ge: "1 \<le> count_effect Decorate (trace r)" "1 \<le> count_effect InvokeDefault (trace r)"
    by (simp_all add: tr count_effect_def)
  from loadBlock_status_gate[of b1 "example_hlx :: unit hlx" no_decoration
      "[CssOnerror, Call, ImportRejected]"] g
  have same: "loadBlock_call (example_hlx :: unit hlx) no_decoration b1 = b1"
    and stays: "gated (run (example_hlx :: unit hlx) no_decoration [CssOnerror, Call, ImportRejected] b1)"
    by blast+
  from loadBlock_status_gate[of example_block "example_hlx :: unit hlx" no_decoration "[]"] ng
  obtain rest where
    "trace (loadBlock_call (example_hlx :: unit hlx) no_decoration example_block) =
       trace example_block @ SetStatus ''loading'' # rest" by blast
  then have first:
    "hd (trace (loadBlock_call (example_hlx :: unit hlx) no_decoration example_block)) = SetStatus ''loading''"
    by (simp add: t0)
  from loadBlock_status_gate[of r "example_hlx :: unit hlx" no_decoration
      "[Call, CssOnerror, ImportRejected]"] st
  have kept: "blockStatus (run (example_hlx :: unit hlx) no_decoration [Call, CssOnerror, ImportRejected] r) =
      Some ''loaded''" by blast
  from le ge same s1 st stays first kept
  have "count_effect Decorate (trace r) = 1 \<and> count_effect InvokeDefault (trace r) = 1 \<and>
        blockStatus r = Some ''loaded'' \<and>
        loadBlock_call (example_hlx :: unit hlx) no_decoration b1 = b1 \<and>
        blockStatus b1 = Some ''loading'' \<and>
        hd (trace (loadBlock_call (example_hlx :: unit hlx) no_decoration example_block)) = SetStatus ''loading'' \<and>
        gated (run (example_hlx :: unit hlx) no_decoration [CssOnerror, Call, ImportRejected] b1) \<and>
        blockStatus (run (example_hlx :: unit hlx) no_decoration [Call, CssOnerror, ImportRejected] r) =
          Some ''loaded''"
    by simp
  then show ?thesis unfolding r_def b1_def .
qed

text \<open>
  C7. After the first call of \<^verbatim>\<open>loadBlock\<close> on a block that is not gated, with a
  decoration that did not throw, and whatever follows in whatever order: the status is
  \<^verbatim>\<open>loaded\<close> exactly when the stylesheet load has failed, or has succeeded with the
  script branch settled, and it is \<^verbatim>\<open>loading\<close> until then; a failed stylesheet load
  and a failed import or default export are each in the log; so once both branches have
  settled, failed or not, the block is \<^verbatim>\<open>loaded\<close>.
\<close>

theorem loadBlock_failure_isolation:
  assumes "\<not> gated b" and "decorate (markup b) = (d, None)"
    and "b' = run cfg decorate (Call # es) b"
  shows "(blockStatus b' = Some ''loaded'') =
           (css_is CssFailed b' \<or> (css_is CssLoaded b' \<and> script_settled b')) \<and>
         (blockStatus b' = Some ''loaded'' \<or> blockStatus b' = Some ''loading'') \<and>
         (css_is CssFailed b' \<longrightarrow> block_failure (blockName b) \<in> set (trace b')) \<and>
         (script_is ScriptFailed b' \<longrightarrow> module_failure (blockName b) \<in> set (trace b')) \<and>
         (css_settled b' \<and> script_settled b' \<longrightarrow> blockStatus b' = Some ''loaded'')"
proof -
  have "joined_right (blockName b) b'"
    unfolding assms(3)
    using joined_right_run[OF joined_right_call[of b decorate d cfg, OF assms(1,2)], of cfg decorate es]
    by simp
  from joined_right_facts[OF this] show ?thesis by blast
qed

lemma example_script_failure:
  "run (example_hlx :: unit hlx) no_decoration [Call, ImportRejected, CssOnload] example_block =
   \<lparr>blockStatus = Some ''loaded'', blockName = ''hero'', markup = (),
    head_links = [''/blocks/hero/hero.css''],
    trace = [SetStatus ''loading'', Decorate, LoadCSS ''/blocks/hero/hero.css'',
             AppendLink ''/blocks/hero/hero.css'', Import ''/blocks/hero/hero.js'',
             ConsoleLog ''failed to load module for hero'', SetStatus ''loaded''],
    pending = Some \<lparr>css = CssLoaded, script = ScriptFailed, joined = True\<rparr>\<rparr>"
  by code_simp

lemma example_stylesheet_failure:
  "run (example_hlx :: unit hlx) no_decoration [Call, CssOnerror] example_block =
   \<lparr>blockStatus = Some ''loaded'', blockName = ''hero'', markup = (),
    head_links = [''/blocks/hero/hero.css''],
    trace = [SetStatus ''loading'', Decorate, LoadCSS ''/blocks/hero/hero.css'',
             AppendLink ''/blocks/hero/hero.css'', Import ''/blocks/hero/hero.js'',
             ConsoleLog ''failed to load block hero'', SetStatus ''loaded''],
    pending = Some \<lparr>css = CssFailed, script = Importing, joined = True\<rparr>\<rparr>"
  by code_simp

text \<open>Two instances: the import fails and the stylesheet loads; the stylesheet fails.\<close>

theorem loadBlock_failure_isolation_example:
  "blockStatus (run (example_hlx :: unit hlx) no_decoration [Call, ImportRejected, CssOnload] example_block)
     = Some ''loaded'' \<and>
   module_failure ''hero'' \<in>
     set (trace (run (example_hlx :: unit hlx) no_decoration [Call, ImportRejected, CssOnload] example_block)) \<and>
   blockStatus (run (example_hlx :: unit hlx) no_decoration [Call, CssOnerror] example_block)
     = Some ''loaded'' \<and>
   block_failure ''hero'' \<in>
     set (trace (run (example_hlx :: unit hlx) no_decoration [Call, CssOnerror] example_block))"
proof -
  define r where
    "r = run (example_hlx :: unit hlx) no_decoration [Call, ImportRejected, CssOnload] example_block"
  define r' where
    "r' = run (example_hlx :: unit hlx) no_decoration [Call, CssOnerror] example_block"
  have g: "\<not> gated example_block" by (simp add: gated_def example_block_def)
  have d: "no_decoration (markup example_block) = ((), None)" by (simp add: no_decoration_def)
  have settled: "css_settled r" "script_settled r" "script_is ScriptFailed r"
    unfolding r_def example_script_failure
    by (simp_all add: css_settled_def script_settled_def css_is_def script_is_def)
  have failed: "css_is CssFailed r'"
    unfolding r'_def example_stylesheet_failure by (simp add: css_is_def)
  have name: "blockName example_block = ''hero''" by (simp add: example_block_def)
  from loadBlock_failure_isolation[OF g d r_def] settled name
  have 1: "blockStatus r = Some ''loaded'' \<and> module_failure ''hero'' \<in> set (trace r)" by simp
  from loadBlock_failure_isolation[OF g d r'_def] failed name
  have 2: "blockStatus r' = Some ''loaded'' \<and> block_failure ''hero'' \<in> set (trace r')" by simp
  from 1 2 show ?thesis unfolding r_def r'_def by blast
qed

text \<open>When the stylesheet fails first, the block is \<^verbatim>\<open>loaded\<close> while the import is still in
  flight: the status was not set after both branches had completed. The default export
  runs later, on a block that is already \<^verbatim>\<open>loaded\<close>.\<close>

theorem stylesheet_failure_does_not_wait:
  "blockStatus (run (example_hlx :: unit hlx) no_decoration [Call, CssOnerror] example_block) = Some ''loaded'' \<and>
   script_is Importing (run (example_hlx :: unit hlx) no_decoration [Call, CssOnerror] example_block) \<and>
   \<not> script_settled (run (example_hlx :: unit hlx) no_decoration [Call, CssOnerror] example_block) \<and>
   trace (run (example_hlx :: unit hlx) no_decoration [Call, CssOnerror, ImportResolved True] example_block) =
     [SetStatus ''loading'', Decorate, LoadCSS ''/blocks/hero/hero.css'',
      AppendLink ''/blocks/hero/hero.css'', Import ''/blocks/hero/hero.js'',
      ConsoleLog ''failed to load block hero'', SetStatus ''loaded'', InvokeDefault]"
  by code_simp

end
